theory Spec2Isabelle
  imports Complex_Main
begin

section \<open>IEEE 754 binary32\<close>

text \<open>
  The fragment shader of \<open>Home.tsx\<close> computes in the type \<open>float\<close> of GLSL, which is
  IEEE 754 binary32: every operation returns the exact result rounded to the nearest
  number that binary32 has, ties to even, and overflows to an infinity. The properties
  of the shader depend on this rounding, so the arithmetic is modelled first.

  A binary32 value is a finite number, an infinity or NaN. Finite values are carried
  as reals; the operations below return \<open>round32\<close> of the exact result, so they return
  only numbers that binary32 has, and \<open>is_f32\<close> says of an input that it is such a
  number. The sign of zero is not modelled: a division of a non-zero number by zero gives
  the infinity with the sign of the dividend.
\<close>

datatype f32 = Fin real | PInf | NInf | NaN

text \<open>Rounding to the nearest integer, ties to even.\<close>

definition rhe :: "real \<Rightarrow> int" where
  "rhe r =
     (let f = \<lfloor>r\<rfloor>; d = r - of_int f
      in if d < 1 / 2 then f
         else if 1 / 2 < d then f + 1
         else if even f then f else f + 1)"

text \<open>
  The exponent of a positive number: \<open>e\<close> with \<open>2 ^ e \<le> a < 2 ^ (e + 1)\<close>, kept
  between -126 (below that the numbers are subnormal) and 127. The search starts at 0 and
  goes up or down.
\<close>

function expo_up :: "real \<Rightarrow> int \<Rightarrow> int" where
  "expo_up a e = (if e < 127 \<and> 2 powi (e + 1) \<le> a then expo_up a (e + 1) else e)"
  by pat_completeness auto
termination
  by (relation "measure (\<lambda>(a, e). nat (127 - e))") auto

function expo_down :: "real \<Rightarrow> int \<Rightarrow> int" where
  "expo_down a e = (if - 126 < e \<and> a < 2 powi e then expo_down a (e - 1) else e)"
  by pat_completeness auto
termination
  by (relation "measure (\<lambda>(a, e). nat (e + 126))") auto

declare expo_up.simps [simp del] expo_down.simps [simp del]

definition expo :: "real \<Rightarrow> int" where
  "expo a = (if 1 \<le> a then expo_up a 0 else expo_down a 0)"

text \<open>
  Rounding to nearest, ties to even, with 24 bits of precision: the unit in the last
  place of a number with exponent \<open>e\<close> is \<open>2 ^ (e - 23)\<close>. A result of magnitude
  \<open>2 ^ 128\<close> or more is an infinity.
\<close>

definition round32 :: "real \<Rightarrow> f32" where
  "round32 x =
     (if x = 0 then Fin 0
      else
        let e = expo \<bar>x\<bar>;
            q = 2 powi (e - 23);
            r = of_int (rhe (\<bar>x\<bar> / q)) * q
        in if 2 powi 128 \<le> r then (if 0 < x then PInf else NInf)
           else Fin (sgn x * r))"

definition is_f32 :: "f32 \<Rightarrow> bool" where
  "is_f32 x = (case x of Fin r \<Rightarrow> round32 r = Fin r | _ \<Rightarrow> True)"

subsection \<open>The operations\<close>

text \<open>
  Arithmetic with the special values follows IEEE 754: NaN is contagious,
  \<open>\<infinity> - \<infinity>\<close>, \<open>0 * \<infinity>\<close>, \<open>0 / 0\<close> and \<open>\<infinity> / \<infinity>\<close> are NaN. A comparison with NaN is
  false.
\<close>

fun fneg :: "f32 \<Rightarrow> f32" where
  "fneg (Fin a) = Fin (- a)"
| "fneg PInf = NInf"
| "fneg NInf = PInf"
| "fneg NaN = NaN"

fun fabs :: "f32 \<Rightarrow> f32" where
  "fabs (Fin a) = Fin \<bar>a\<bar>"
| "fabs PInf = PInf"
| "fabs NInf = PInf"
| "fabs NaN = NaN"

fun fadd :: "f32 \<Rightarrow> f32 \<Rightarrow> f32" where
  "fadd (Fin a) (Fin b) = round32 (a + b)"
| "fadd NaN y = NaN"
| "fadd x NaN = NaN"
| "fadd PInf NInf = NaN"
| "fadd NInf PInf = NaN"
| "fadd PInf y = PInf"
| "fadd x PInf = PInf"
| "fadd NInf y = NInf"
| "fadd x NInf = NInf"

definition fsub :: "f32 \<Rightarrow> f32 \<Rightarrow> f32" where
  "fsub x y = fadd x (fneg y)"

fun fmul :: "f32 \<Rightarrow> f32 \<Rightarrow> f32" where
  "fmul (Fin a) (Fin b) = round32 (a * b)"
| "fmul NaN y = NaN"
| "fmul x NaN = NaN"
| "fmul (Fin a) PInf = (if a = 0 then NaN else if 0 < a then PInf else NInf)"
| "fmul (Fin a) NInf = (if a = 0 then NaN else if 0 < a then NInf else PInf)"
| "fmul PInf (Fin b) = (if b = 0 then NaN else if 0 < b then PInf else NInf)"
| "fmul NInf (Fin b) = (if b = 0 then NaN else if 0 < b then NInf else PInf)"
| "fmul PInf PInf = PInf"
| "fmul PInf NInf = NInf"
| "fmul NInf PInf = NInf"
| "fmul NInf NInf = PInf"

fun fdiv :: "f32 \<Rightarrow> f32 \<Rightarrow> f32" where
  "fdiv (Fin a) (Fin b) =
     (if b = 0 then (if a = 0 then NaN else if 0 < a then PInf else NInf)
      else round32 (a / b))"
| "fdiv NaN y = NaN"
| "fdiv x NaN = NaN"
| "fdiv (Fin a) PInf = Fin 0"
| "fdiv (Fin a) NInf = Fin 0"
| "fdiv PInf (Fin b) = (if 0 \<le> b then PInf else NInf)"
| "fdiv NInf (Fin b) = (if 0 \<le> b then NInf else PInf)"
| "fdiv x y = NaN"

fun ffloor :: "f32 \<Rightarrow> f32" where
  "ffloor (Fin a) = Fin (of_int \<lfloor>a\<rfloor>)"
| "ffloor x = x"

fun flt :: "f32 \<Rightarrow> f32 \<Rightarrow> bool" where
  "flt (Fin a) (Fin b) = (a < b)"
| "flt NaN y = False"
| "flt x NaN = False"
| "flt x NInf = False"
| "flt PInf y = False"
| "flt NInf y = True"
| "flt x PInf = True"

text \<open>
  The built-in functions of GLSL, by the formulas of the GLSL specification. GLSL leaves
  \<open>min\<close>, \<open>max\<close> and \<open>sign\<close> of NaN undefined; here \<open>min\<close> and \<open>max\<close> return the operand that
  is a number, and \<open>sign\<close> of NaN is 0.
\<close>

definition fmax :: "f32 \<Rightarrow> f32 \<Rightarrow> f32" where
  "fmax x y = (if x = NaN then y else if y = NaN then x else if flt x y then y else x)"

definition fmin :: "f32 \<Rightarrow> f32 \<Rightarrow> f32" where
  "fmin x y = (if x = NaN then y else if y = NaN then x else if flt y x then y else x)"

definition fclamp :: "f32 \<Rightarrow> f32 \<Rightarrow> f32 \<Rightarrow> f32" where
  "fclamp x lo hi = fmin (fmax x lo) hi"

definition fsign :: "f32 \<Rightarrow> f32" where
  "fsign x = (if flt (Fin 0) x then Fin 1 else if flt x (Fin 0) then Fin (- 1) else Fin 0)"

definition fmod :: "f32 \<Rightarrow> f32 \<Rightarrow> f32" where
  "fmod x y = fsub x (fmul y (ffloor (fdiv x y)))"

definition smoothstep :: "f32 \<Rightarrow> f32 \<Rightarrow> f32 \<Rightarrow> f32" where
  "smoothstep edge0 edge1 x =
     (let t = fclamp (fdiv (fsub x edge0) (fsub edge1 edge0)) (Fin 0) (Fin 1)
      in fmul (fmul t t) (fsub (Fin 3) (fmul (Fin 2) t)))"

definition mix :: "f32 \<Rightarrow> f32 \<Rightarrow> f32 \<Rightarrow> f32" where
  "mix x y a = fadd (fmul x (fsub (Fin 1) a)) (fmul y a)"

section \<open>The fragment shader of \<open>Home.tsx\<close>\<close>

subsection \<open>Vectors\<close>

text \<open>Component-wise operators of GLSL on \<open>vec2\<close>, and the operators with a scalar.\<close>

datatype fvec2 = FVec2 (fvec_x: f32) (fvec_y: f32)

definition fvec2_add :: "fvec2 \<Rightarrow> fvec2 \<Rightarrow> fvec2" where
  "fvec2_add a b = FVec2 (fadd (fvec_x a) (fvec_x b)) (fadd (fvec_y a) (fvec_y b))"

definition fvec2_sub :: "fvec2 \<Rightarrow> fvec2 \<Rightarrow> fvec2" where
  "fvec2_sub a b = FVec2 (fsub (fvec_x a) (fvec_x b)) (fsub (fvec_y a) (fvec_y b))"

definition fvec2_mul :: "fvec2 \<Rightarrow> fvec2 \<Rightarrow> fvec2" where
  "fvec2_mul a b = FVec2 (fmul (fvec_x a) (fvec_x b)) (fmul (fvec_y a) (fvec_y b))"

definition fvec2_div :: "fvec2 \<Rightarrow> fvec2 \<Rightarrow> fvec2" where
  "fvec2_div a b = FVec2 (fdiv (fvec_x a) (fvec_x b)) (fdiv (fvec_y a) (fvec_y b))"

definition fvec2_scale :: "fvec2 \<Rightarrow> f32 \<Rightarrow> fvec2" where
  "fvec2_scale a k = FVec2 (fmul (fvec_x a) k) (fmul (fvec_y a) k)"

definition fvec2_clamp :: "fvec2 \<Rightarrow> f32 \<Rightarrow> f32 \<Rightarrow> fvec2" where
  "fvec2_clamp a lo hi = FVec2 (fclamp (fvec_x a) lo hi) (fclamp (fvec_y a) lo hi)"

subsection \<open>The uniforms\<close>

text \<open>
  The uniform block as the shader reads it. The fields carry the suffix 32 because the
  \<open>uniforms\<close> object of the component, further down, has fields of the same names. The
  sampler \<open>uTexture\<close> is a handle to the texture object.
\<close>

record uniforms32 =
  uTexture32 :: nat
  uResolution32 :: fvec2
  uTextureSize32 :: fvec2
  uMouse32 :: fvec2
  uTime32 :: f32
  uParallaxStrength32 :: f32
  uDistortionMultiplier32 :: f32
  uGlassStrength32 :: f32
  uStripesFrequency32 :: f32
  uGlassSmoothness32 :: f32
  uEdgePadding32 :: f32
  uFlowSpeed32 :: f32

subsection \<open>\<open>getCoverUV\<close>\<close>

text \<open>\<open>getCoverUV\<close> and its locals \<open>scale\<close>, \<open>scaledSize\<close> and \<open>offset\<close>.\<close>

definition cover_scale :: "uniforms32 \<Rightarrow> fvec2 \<Rightarrow> f32" where
  "cover_scale U textureSize =
     (let s = fvec2_div (uResolution32 U) textureSize
      in fmax (fvec_x s) (fvec_y s))"

definition cover_scaledSize :: "uniforms32 \<Rightarrow> fvec2 \<Rightarrow> fvec2" where
  "cover_scaledSize U textureSize = fvec2_scale textureSize (cover_scale U textureSize)"

definition cover_offset :: "uniforms32 \<Rightarrow> fvec2 \<Rightarrow> fvec2" where
  "cover_offset U textureSize =
     fvec2_scale (fvec2_sub (uResolution32 U) (cover_scaledSize U textureSize)) (Fin 0.5)"

definition getCoverUV :: "uniforms32 \<Rightarrow> fvec2 \<Rightarrow> fvec2 \<Rightarrow> fvec2" where
  "getCoverUV U uv textureSize =
     (if flt (fvec_x textureSize) (Fin 1.0) \<or> flt (fvec_y textureSize) (Fin 1.0) then uv
      else
        let s = fvec2_div (uResolution32 U) textureSize;
            scale = fmax (fvec_x s) (fvec_y s);
            scaledSize = fvec2_scale textureSize scale;
            offset = fvec2_scale (fvec2_sub (uResolution32 U) scaledSize) (Fin 0.5)
        in fvec2_div (fvec2_sub (fvec2_mul uv (uResolution32 U)) offset) scaledSize)"

subsection \<open>\<open>displacement\<close>, \<open>fractalGlass\<close> with its loop, and \<open>smoothEdge\<close>\<close>

definition displacement :: "f32 \<Rightarrow> f32 \<Rightarrow> f32 \<Rightarrow> f32" where
  "displacement x num_stripes strength =
     (let modulus = fdiv (Fin 1.0) num_stripes
      in fmul (fmod x modulus) strength)"

function fractalGlass_loop :: "uniforms32 \<Rightarrow> f32 \<Rightarrow> f32 \<Rightarrow> int \<Rightarrow> f32 \<Rightarrow> f32" where
  "fractalGlass_loop U x time i d =
     (if i \<le> 5 then
        let offset = fadd (fmul (Fin (of_int i)) (uGlassSmoothness32 U))
                          (fmul time (uFlowSpeed32 U))
        in fractalGlass_loop U x time (i + 1)
             (fadd d (displacement (fadd x offset) (uStripesFrequency32 U)
                        (uGlassStrength32 U)))
      else d)"
  by pat_completeness auto
termination
  by (relation "measure (\<lambda>(U, x, time, i, d). nat (6 - i))") auto

declare fractalGlass_loop.simps [simp del]

definition fractalGlass :: "uniforms32 \<Rightarrow> f32 \<Rightarrow> f32 \<Rightarrow> f32" where
  "fractalGlass U x time =
     (let d = fractalGlass_loop U x time (- 5) (Fin 0.0);
          d = fdiv d (Fin 11.0)
      in fadd x d)"

definition smoothEdge :: "f32 \<Rightarrow> f32 \<Rightarrow> f32" where
  "smoothEdge x padding =
     (let edge = padding
      in if flt x edge then smoothstep (Fin 0.0) edge x
         else if flt (fsub (Fin 1.0) edge) x
         then smoothstep (Fin 1.0) (fsub (Fin 1.0) edge) x
         else Fin 1.0)"

subsection \<open>\<open>main\<close>\<close>

text \<open>
  \<open>main\<close> in the stages the claims speak about: the edge fade, \<open>uv\<close> after
  \<open>uv.x = mix(originalX, distorted, edgeFactor)\<close>, \<open>parallaxOffset\<close> after
  \<open>parallaxOffset *= edgeFactor\<close>, \<open>uv\<close> after \<open>uv += parallaxOffset\<close>, and \<open>coverUV\<close>
  after the clamp, which is the coordinate handed to \<open>texture2D\<close>.
\<close>

definition main_edgeFactor :: "uniforms32 \<Rightarrow> fvec2 \<Rightarrow> f32" where
  "main_edgeFactor U vUv = smoothEdge (fvec_x vUv) (uEdgePadding32 U)"

definition main_distorted :: "uniforms32 \<Rightarrow> fvec2 \<Rightarrow> fvec2" where
  "main_distorted U vUv =
     (let uv = vUv;
          originalX = fvec_x uv;
          edgeFactor = main_edgeFactor U vUv;
          distorted = fractalGlass U originalX (uTime32 U)
      in FVec2 (mix originalX distorted edgeFactor) (fvec_y uv))"

definition main_parallaxOffset :: "uniforms32 \<Rightarrow> fvec2 \<Rightarrow> fvec2" where
  "main_parallaxOffset U vUv =
     (let originalX = fvec_x vUv;
          edgeFactor = main_edgeFactor U vUv;
          uv = main_distorted U vUv;
          distortionFactor = fsub (fvec_x uv) originalX;
          normalizedMouse = fvec2_div (uMouse32 U) (uResolution32 U);
          parallaxDirection = fneg (fsign (fsub (Fin 0.5) (fvec_x normalizedMouse)));
          parallaxOffset = FVec2
            (fmul (fmul (fmul parallaxDirection
                           (fabs (fsub (fvec_x normalizedMouse) (Fin 0.5))))
                        (uParallaxStrength32 U))
                  (fadd (Fin 1.0) (fmul (fabs distortionFactor) (uDistortionMultiplier32 U))))
            (Fin 0.0)
      in fvec2_scale parallaxOffset edgeFactor)"

definition main_uv :: "uniforms32 \<Rightarrow> fvec2 \<Rightarrow> fvec2" where
  "main_uv U vUv = fvec2_add (main_distorted U vUv) (main_parallaxOffset U vUv)"

definition main_coverUV :: "uniforms32 \<Rightarrow> fvec2 \<Rightarrow> fvec2" where
  "main_coverUV U vUv =
     (let coverUV = getCoverUV U (main_uv U vUv) (uTextureSize32 U)
      in fvec2_clamp coverUV (Fin 0.0) (Fin 1.0))"

text \<open>
  \<open>gl_FragColor\<close>. The sampling function \<open>texture2D\<close> belongs to the rendering
  backend and is a parameter.
\<close>

definition main :: "(nat \<Rightarrow> fvec2 \<Rightarrow> 'c) \<Rightarrow> uniforms32 \<Rightarrow> fvec2 \<Rightarrow> 'c" where
  "main texture2D U vUv = texture2D (uTexture32 U) (main_coverUV U vUv)"

section \<open>The component \<open>FlowingGlassEffect\<close>\<close>

subsection \<open>The \<open>uniforms\<close> object\<close>

text \<open>
  The object \<open>uniforms\<close> that the component builds and its handlers write to. Its
  numbers are numbers of TypeScript; the handlers only store and add them, and they are
  carried as reals. A \<open>T.Vector2\<close> is a pair of them; \<open>uTexture\<close> is a handle to the
  texture object.
\<close>

datatype vec2 = Vec2 (vec_x: real) (vec_y: real)

record uniforms =
  uTexture :: nat
  uResolution :: vec2
  uTextureSize :: vec2
  uMouse :: vec2
  uTime :: real
  uParallaxStrength :: real
  uDistortionMultiplier :: real
  uGlassStrength :: real
  uStripesFrequency :: real
  uGlassSmoothness :: real
  uEdgePadding :: real
  uFlowSpeed :: real

subsection \<open>The host and the state of one component instance\<close>

text \<open>
  The functions registered on \<open>window\<close>: the two handlers of the component, and
  the handlers of other code.
\<close>

datatype listener = OnMouseMove | OnResize | Foreign nat

text \<open>The objects with a \<open>dispose\<close> method that the effect constructs.\<close>

datatype resource = Geometry | Material | Texture | Renderer

text \<open>\<open>Canvas\<close> is \<open>renderer.domElement\<close>, the render surface.\<close>

datatype element = Canvas | Node nat

text \<open>
  The calls to the browser and to the rendering library, in the order the code makes
  them. \<open>UpdateProjectionMatrix\<close> carries the value of \<open>camera.aspect\<close> at the call.
\<close>

datatype call =
    SetSize real real
  | SetPixelRatio real
  | AppendChild element
  | RemoveChild element
  | AddEventListener string listener
  | RemoveEventListener string listener
  | RequestAnimationFrame nat
  | CancelAnimationFrame nat
  | UpdateProjectionMatrix real
  | Render
  | Dispose resource

datatype error = NotFoundError

record mouse_event =
  clientX :: real
  clientY :: real

text \<open>
  The first six fields belong to the browser: the size of the window, its listener
  table, the children of the element \<open>containerRef.current\<close> (\<open>None\<close> when the ref is
  null) and the next request id of \<open>requestAnimationFrame\<close>. The others belong to the
  component instance: the pending frame requests for \<open>animate\<close>, the constructed
  resources not yet disposed, \<open>canvasRef.current\<close>, the variable \<open>animationId\<close>,
  \<open>camera.aspect\<close>, the \<open>uniforms\<close> object and the calls made so far.
\<close>

record state =
  innerWidth :: real
  innerHeight :: real
  devicePixelRatio :: real
  listeners :: "(string \<times> listener) set"
  container :: "element set option"
  nextFrameId :: nat
  frames :: "nat set"
  allocated :: "resource set"
  canvasRef :: "element option"
  animationId :: nat
  camera_aspect :: real
  uniforms :: uniforms
  calls :: "call list"

subsection \<open>Browser and library calls\<close>

definition addEventListener :: "string \<Rightarrow> listener \<Rightarrow> state \<Rightarrow> state" where
  "addEventListener t f s =
     s\<lparr>listeners := insert (t, f) (listeners s), calls := calls s @ [AddEventListener t f]\<rparr>"

definition removeEventListener :: "string \<Rightarrow> listener \<Rightarrow> state \<Rightarrow> state" where
  "removeEventListener t f s =
     s\<lparr>listeners := listeners s - {(t, f)}, calls := calls s @ [RemoveEventListener t f]\<rparr>"

text \<open>\<open>requestAnimationFrame(animate)\<close>: the new state and the request id.\<close>

definition requestAnimationFrame :: "state \<Rightarrow> state \<times> nat" where
  "requestAnimationFrame s =
     (let n = nextFrameId s
      in (s\<lparr>frames := insert n (frames s), nextFrameId := n + 1,
             calls := calls s @ [RequestAnimationFrame n]\<rparr>, n))"

definition cancelAnimationFrame :: "nat \<Rightarrow> state \<Rightarrow> state" where
  "cancelAnimationFrame n s =
     s\<lparr>frames := frames s - {n}, calls := calls s @ [CancelAnimationFrame n]\<rparr>"

definition appendChild :: "element \<Rightarrow> state \<Rightarrow> state" where
  "appendChild e s =
     s\<lparr>container := map_option (insert e) (container s), calls := calls s @ [AppendChild e]\<rparr>"

text \<open>\<open>removeChild\<close> throws \<open>NotFoundError\<close> when the node is not a child.\<close>

definition removeChild :: "element \<Rightarrow> state \<Rightarrow> error + state" where
  "removeChild e s =
     (case container s of
        None \<Rightarrow> Inl NotFoundError
      | Some kids \<Rightarrow>
          if e \<in> kids
          then Inr (s\<lparr>container := Some (kids - {e}), calls := calls s @ [RemoveChild e]\<rparr>)
          else Inl NotFoundError)"

definition new_resource :: "resource \<Rightarrow> state \<Rightarrow> state" where
  "new_resource r s = s\<lparr>allocated := insert r (allocated s)\<rparr>"

definition dispose :: "resource \<Rightarrow> state \<Rightarrow> state" where
  "dispose r s = s\<lparr>allocated := allocated s - {r}, calls := calls s @ [Dispose r]\<rparr>"

definition call :: "call \<Rightarrow> state \<Rightarrow> state" where
  "call c s = s\<lparr>calls := calls s @ [c]\<rparr>"

subsection \<open>The effect of \<open>useEffect\<close>\<close>

text \<open>The object \<open>uniforms\<close> as the effect builds it; \<open>tex\<close> is the texture.\<close>

definition new_uniforms :: "nat \<Rightarrow> state \<Rightarrow> uniforms" where
  "new_uniforms tex s =
     \<lparr>uTexture = tex,
      uResolution = Vec2 (innerWidth s) (innerHeight s),
      uTextureSize = Vec2 1 1,
      uMouse = Vec2 (innerWidth s / 2) (innerHeight s / 2),
      uTime = 0,
      uParallaxStrength = 0.1,
      uDistortionMultiplier = 10,
      uGlassStrength = 2.0,
      uStripesFrequency = 35,
      uGlassSmoothness = 0.00001,
      uEdgePadding = 0.1,
      uFlowSpeed = 0.01\<rparr>"

text \<open>The callback given to \<open>textureLoader.load\<close>; no error callback is given.\<close>

definition onTextureLoad :: "real \<Rightarrow> real \<Rightarrow> state \<Rightarrow> state" where
  "onTextureLoad width height s =
     s\<lparr>uniforms := (uniforms s)\<lparr>uTextureSize := Vec2 width height\<rparr>\<rparr>"

definition onMouseMove :: "mouse_event \<Rightarrow> state \<Rightarrow> state" where
  "onMouseMove event s =
     s\<lparr>uniforms := (uniforms s)\<lparr>uMouse := Vec2 (clientX event) (clientY event)\<rparr>\<rparr>"

definition onResize :: "state \<Rightarrow> state" where
  "onResize s =
     (let s = s\<lparr>camera_aspect := innerWidth s / innerHeight s\<rparr>;
          s = call (UpdateProjectionMatrix (camera_aspect s)) s;
          s = call (SetSize (innerWidth s) (innerHeight s)) s
      in s\<lparr>uniforms := (uniforms s)\<lparr>uResolution := Vec2 (innerWidth s) (innerHeight s)\<rparr>\<rparr>)"

definition animate :: "state \<Rightarrow> state" where
  "animate s =
     (let (s, n) = requestAnimationFrame s;
          s = s\<lparr>animationId := n\<rparr>;
          s = s\<lparr>uniforms := (uniforms s)\<lparr>uTime := uTime (uniforms s) + 0.01\<rparr>\<rparr>
      in call Render s)"

text \<open>
  The body of the effect. It returns \<open>None\<close> when \<open>containerRef.current\<close> is null:
  then nothing is set up and no cleanup function is returned. The fields of the
  component instance start empty.
\<close>

definition mount :: "state \<Rightarrow> state option" where
  "mount s =
     (case container s of
        None \<Rightarrow> None
      | Some kids \<Rightarrow>
          let s = s\<lparr>frames := {}, allocated := {}, canvasRef := None, calls := []\<rparr>;
              s = s\<lparr>camera_aspect := innerWidth s / innerHeight s\<rparr>;
              s = new_resource Renderer s;
              s = call (SetSize (innerWidth s) (innerHeight s)) s;
              s = call (SetPixelRatio (min (devicePixelRatio s) 2)) s;
              s = s\<lparr>canvasRef := Some Canvas\<rparr>;
              s = appendChild Canvas s;
              s = new_resource Geometry s;
              s = new_resource Texture s;
              s = s\<lparr>uniforms := new_uniforms 0 s\<rparr>;
              s = new_resource Material s;
              s = addEventListener ''mousemove'' OnMouseMove s;
              s = addEventListener ''resize'' OnResize s
          in Some (animate s))"

text \<open>
  The cleanup function the effect returns. The captured \<open>container\<close> is the element
  that was present at mount.
\<close>

definition cleanup :: "state \<Rightarrow> error + state" where
  "cleanup s =
     (let s = removeEventListener ''mousemove'' OnMouseMove s;
          s = removeEventListener ''resize'' OnResize s;
          s = cancelAnimationFrame (animationId s) s;
          r = (case canvasRef s of
                 Some c \<Rightarrow> if container s \<noteq> None then removeChild c s else Inr s
               | None \<Rightarrow> Inr s)
      in case r of
           Inl e \<Rightarrow> Inl e
         | Inr s \<Rightarrow>
             Inr (dispose Renderer (dispose Texture (dispose Material (dispose Geometry s)))))"

subsection \<open>Events while the component is mounted\<close>

text \<open>
  What the browser can do to a mounted component: move the pointer, resize the
  window, run the pending frame callback, finish loading the image, or fail to load
  it. A handler runs when it is registered; the frame callback runs when its request is
  pending, and the request is consumed.
\<close>

datatype event =
    MouseMove mouse_event
  | Resize real real
  | Frame
  | TextureLoaded real real
  | TextureError

fun dispatch :: "event \<Rightarrow> state \<Rightarrow> state" where
  "dispatch (MouseMove ev) s =
     (if (''mousemove'', OnMouseMove) \<in> listeners s then onMouseMove ev s else s)"
| "dispatch (Resize w h) s =
     (let s = s\<lparr>innerWidth := w, innerHeight := h\<rparr>
      in if (''resize'', OnResize) \<in> listeners s then onResize s else s)"
| "dispatch Frame s =
     (if animationId s \<in> frames s
      then animate (s\<lparr>frames := frames s - {animationId s}\<rparr>)
      else s)"
| "dispatch (TextureLoaded w h) s = onTextureLoad w h s"
| "dispatch TextureError s = s"

fun run :: "event list \<Rightarrow> state \<Rightarrow> state" where
  "run [] s = s"
| "run (e # es) s = run es (dispatch e s)"

fun is_TextureLoaded :: "event \<Rightarrow> bool" where
  "is_TextureLoaded (TextureLoaded w h) = True"
| "is_TextureLoaded _ = False"

subsection \<open>Setting the uniforms of the shader\<close>

text \<open>
  What the rendering library does with the \<open>uniforms\<close> object at a draw call: each number
  is rounded to binary32 and handed to the shader.
\<close>

definition upload_vec2 :: "vec2 \<Rightarrow> fvec2" where
  "upload_vec2 v = FVec2 (round32 (vec_x v)) (round32 (vec_y v))"

definition upload :: "uniforms \<Rightarrow> uniforms32" where
  "upload U =
     \<lparr>uTexture32 = uTexture U,
      uResolution32 = upload_vec2 (uResolution U),
      uTextureSize32 = upload_vec2 (uTextureSize U),
      uMouse32 = upload_vec2 (uMouse U),
      uTime32 = round32 (uTime U),
      uParallaxStrength32 = round32 (uParallaxStrength U),
      uDistortionMultiplier32 = round32 (uDistortionMultiplier U),
      uGlassStrength32 = round32 (uGlassStrength U),
      uStripesFrequency32 = round32 (uStripesFrequency U),
      uGlassSmoothness32 = round32 (uGlassSmoothness U),
      uEdgePadding32 = round32 (uEdgePadding U),
      uFlowSpeed32 = round32 (uFlowSpeed U)\<rparr>"

section \<open>Auxiliary definitions for the proofs\<close>





text \<open>The polynomial of \<open>smoothstep\<close>.\<close>

definition hermite :: "real \<Rightarrow> real" where
  "hermite t = t * t * (3 - 2 * t)"

text \<open>
  What holds of a state \<open>s\<close> of the component from the end of the effect until the
  cleanup, when the effect ran in the state \<open>s0\<close>.
\<close>

definition mounted :: "state \<Rightarrow> state \<Rightarrow> bool" where
  "mounted s0 s \<longleftrightarrow>
     canvasRef s = Some Canvas
     \<and> (case container s0 of
          None \<Rightarrow> False
        | Some kids \<Rightarrow> container s = Some (insert Canvas kids))
     \<and> listeners s
         = insert (''resize'', OnResize) (insert (''mousemove'', OnMouseMove) (listeners s0))
     \<and> frames s = {animationId s}
     \<and> allocated s = {Geometry, Material, Texture, Renderer}"

text \<open>
  A page to run the component on: a window of 1600 by 900 pixels with a listener of
  its own, and a container with one child. \<open>example_mounted\<close> is the state after the
  effect has run there.
\<close>

definition example_page :: state where
  "example_page =
     \<lparr>innerWidth = 1600, innerHeight = 900, devicePixelRatio = 3,
      listeners = {(''click'', Foreign 0)}, container = Some {Node 0}, nextFrameId = 7,
      frames = {}, allocated = {}, canvasRef = None, animationId = 0, camera_aspect = 1,
      uniforms = \<lparr>uTexture = 0, uResolution = Vec2 0 0, uTextureSize = Vec2 0 0,
        uMouse = Vec2 0 0, uTime = 0, uParallaxStrength = 0, uDistortionMultiplier = 0,
        uGlassStrength = 0, uStripesFrequency = 0, uGlassSmoothness = 0, uEdgePadding = 0,
        uFlowSpeed = 0\<rparr>,
      calls = []\<rparr>"

definition example_mounted :: state where
  "example_mounted =
     \<lparr>innerWidth = 1600, innerHeight = 900, devicePixelRatio = 3,
      listeners = {(''mousemove'', OnMouseMove), (''resize'', OnResize), (''click'', Foreign 0)},
      container = Some {Canvas, Node 0}, nextFrameId = 8,
      frames = {7}, allocated = {Renderer, Geometry, Texture, Material},
      canvasRef = Some Canvas, animationId = 7, camera_aspect = 16 / 9,
      uniforms = \<lparr>uTexture = 0, uResolution = Vec2 1600 900, uTextureSize = Vec2 1 1,
        uMouse = Vec2 800 450, uTime = 1 / 100, uParallaxStrength = 1 / 10,
        uDistortionMultiplier = 10, uGlassStrength = 2, uStripesFrequency = 35,
        uGlassSmoothness = 1 / 100000, uEdgePadding = 1 / 10, uFlowSpeed = 1 / 100\<rparr>,
      calls = [SetSize 1600 900, SetPixelRatio 2, AppendChild Canvas,
         AddEventListener ''mousemove'' OnMouseMove, AddEventListener ''resize'' OnResize,
         RequestAnimationFrame 7, Render]\<rparr>"

text \<open>
  Uniforms for the examples: those of \<open>example_mounted\<close> as uploaded, the same with
  \<open>uDistortionMultiplier = 3e38\<close> and \<open>uGlassStrength = 100\<close>, and any uniforms with
  another resolution.
\<close>

definition default_uniforms32 :: uniforms32 where
  "default_uniforms32 = upload (uniforms example_mounted)"

definition overflow_uniforms32 :: uniforms32 where
  "overflow_uniforms32 = upload ((uniforms example_mounted)
           \<lparr>uDistortionMultiplier := 300000000000000000000000000000000000000,
            uGlassStrength := 100\<rparr>)"

definition with_resolution :: "uniforms32 \<Rightarrow> real \<Rightarrow> real \<Rightarrow> uniforms32" where
  "with_resolution U w h = U\<lparr>uResolution32 := FVec2 (Fin w) (Fin h)\<rparr>"

section \<open>Properties of the exact sawtooth and of the polynomial of \<open>smoothstep\<close>\<close>

subsection \<open>The sawtooth terms in exact arithmetic\<close>




subsection \<open>The polynomial of \<open>smoothstep\<close>\<close>

lemma hermite_strict_mono:
  assumes "0 \<le> a" "a < b" "b \<le> 1"
  shows "hermite a < hermite b"
proof -
  have e: "hermite b - hermite a
      = (b - a) * (2 * (a * (1 - a)) + 2 * (b * (1 - b)) + a * (1 - b) + b * (1 - a))"
    by (simp add: hermite_def algebra_simps)
  have "0 \<le> a * (1 - a)" "0 \<le> b * (1 - b)" "0 \<le> a * (1 - b)" "0 < b * (1 - a)"
    using assms by simp_all
  then have "0 < 2 * (a * (1 - a)) + 2 * (b * (1 - b)) + a * (1 - b) + b * (1 - a)"
    by linarith
  moreover have "0 < b - a" using assms by simp
  ultimately have "0 < hermite b - hermite a"
    unfolding e by (rule mult_pos_pos [rotated])
  then show ?thesis by simp
qed

lemma hermite_0: "hermite 0 = 0" and hermite_1: "hermite 1 = 1"
  by (simp_all add: hermite_def)

lemma hermite_lipschitz:
  assumes "0 \<le> a" "a \<le> b" "b \<le> 1"
  shows "hermite b - hermite a \<le> 2 * (b - a)"
proof -
  have e: "hermite b - hermite a
      = (b - a) * (2 * (a * (1 - a)) + 2 * (b * (1 - b)) + a * (1 - b) + b * (1 - a))"
    by (simp add: hermite_def algebra_simps)
  have q: "t * (1 - t) \<le> 1 / 4" for t :: real
  proof -
    have "0 \<le> (t - 1 / 2) * (t - 1 / 2)" by simp
    then show ?thesis by (simp add: algebra_simps)
  qed
  have "0 \<le> (1 - a) * (1 - b) + a * b" using assms by simp
  then have "a * (1 - b) + b * (1 - a) \<le> 1" by (simp add: algebra_simps)
  with q [of a] q [of b]
  have "2 * (a * (1 - a)) + 2 * (b * (1 - b)) + a * (1 - b) + b * (1 - a) \<le> 2" by linarith
  then have "(b - a) * (2 * (a * (1 - a)) + 2 * (b * (1 - b)) + a * (1 - b) + b * (1 - a))
      \<le> (b - a) * 2"
    using assms by (intro mult_left_mono) simp_all
  then show ?thesis unfolding e by simp
qed

lemma hermite_mono': "0 \<le> a \<Longrightarrow> a \<le> b \<Longrightarrow> b \<le> 1 \<Longrightarrow> hermite a \<le> hermite b"
  using hermite_strict_mono [of a b] by (cases "a = b") auto

lemma hermite_near:
  assumes "0 \<le> s" "s \<le> 1" "0 \<le> t" "t \<le> 1" "s \<le> t + d" "0 \<le> d"
  shows "hermite s \<le> hermite t + 2 * d"
proof (cases "s \<le> t")
  case True
  then have "hermite s \<le> hermite t" using assms by (intro hermite_mono') simp_all
  with assms(6) show ?thesis by linarith
next
  case False
  then have "t \<le> s" by simp
  then have "hermite s - hermite t \<le> 2 * (s - t)" using assms by (intro hermite_lipschitz)
  with assms(5) show ?thesis by argo
qed

lemma hermite_le_one: "0 \<le> t \<Longrightarrow> t \<le> 1 \<Longrightarrow> hermite t \<le> 1"
  using hermite_mono' [of t 1] by (simp add: hermite_1)

section \<open>Properties of binary32 rounding\<close>

lemmas f32_eval = round32_def expo_def expo_up.simps expo_down.simps rhe_def Let_def

lemmas fvec2_defs = fvec2_add_def fvec2_sub_def fvec2_mul_def fvec2_div_def fvec2_scale_def

subsection \<open>Nearest integer and exponent\<close>

lemma rhe_err: "\<bar>of_int (rhe r) - r\<bar> \<le> 1 / 2"
  unfolding rhe_def Let_def by (auto simp: abs_le_iff)

lemma rhe_of_int: "rhe (of_int n) = n"
  by (simp add: rhe_def)

lemma rhe_ge: "of_int n \<le> r \<Longrightarrow> n \<le> rhe r"
proof -
  assume "of_int n \<le> r"
  then have "n \<le> \<lfloor>r\<rfloor>" by (simp add: le_floor_iff)
  then show ?thesis unfolding rhe_def Let_def by auto
qed

lemma rhe_le: "r \<le> of_int n \<Longrightarrow> rhe r \<le> n"
proof (cases "r = of_int n")
  case True
  then show ?thesis by (simp add: rhe_of_int)
next
  case False
  assume "r \<le> of_int n"
  with False have "r < of_int n" by simp
  then have "\<lfloor>r\<rfloor> < n" by (simp add: floor_less_iff)
  then show ?thesis unfolding rhe_def Let_def by auto
qed

lemma rhe_le_half: "r < of_int n + 1 / 2 \<Longrightarrow> rhe r \<le> n"
proof -
  assume a: "r < of_int n + 1 / 2"
  have "of_int (rhe r) - r \<le> 1 / 2" using abs_le_D1 [OF rhe_err [of r]] .
  with a have "(of_int (rhe r) :: real) < of_int n + 1" by linarith
  then have "(of_int (rhe r) :: real) < of_int (n + 1)" by simp
  then have "rhe r < n + 1" by (simp only: of_int_less_iff)
  then show ?thesis by simp
qed

lemma expo_up_spec:
  "2 powi e \<le> a \<Longrightarrow> e \<le> 127 \<Longrightarrow>
     e \<le> expo_up a e \<and> expo_up a e \<le> 127 \<and> 2 powi (expo_up a e) \<le> a
     \<and> (expo_up a e = 127 \<or> a < 2 powi (expo_up a e + 1))"
proof (induction a e rule: expo_up.induct)
  case (1 a e)
  show ?case
  proof (cases "e < 127 \<and> 2 powi (e + 1) \<le> a")
    case True
    then have "expo_up a e = expo_up a (e + 1)" by (subst expo_up.simps) simp
    moreover have "e + 1 \<le> expo_up a (e + 1) \<and> expo_up a (e + 1) \<le> 127
        \<and> 2 powi (expo_up a (e + 1)) \<le> a
        \<and> (expo_up a (e + 1) = 127 \<or> a < 2 powi (expo_up a (e + 1) + 1))"
      using "1.IH" [OF True] True by simp
    ultimately show ?thesis by simp
  next
    case False
    then have "expo_up a e = e" by (subst expo_up.simps) auto
    with False "1.prems" show ?thesis by auto
  qed
qed

lemma expo_down_spec:
  "a < 2 powi (e + 1) \<Longrightarrow> - 126 \<le> e \<Longrightarrow>
     - 126 \<le> expo_down a e \<and> expo_down a e \<le> e \<and> a < 2 powi (expo_down a e + 1)
     \<and> (expo_down a e = - 126 \<or> 2 powi (expo_down a e) \<le> a)"
proof (induction a e rule: expo_down.induct)
  case (1 a e)
  show ?case
  proof (cases "- 126 < e \<and> a < 2 powi e")
    case True
    then have "expo_down a e = expo_down a (e - 1)" by (subst expo_down.simps) simp
    moreover have "- 126 \<le> expo_down a (e - 1) \<and> expo_down a (e - 1) \<le> e - 1
        \<and> a < 2 powi (expo_down a (e - 1) + 1)
        \<and> (expo_down a (e - 1) = - 126 \<or> 2 powi (expo_down a (e - 1)) \<le> a)"
      using "1.IH" [OF True] True by simp
    ultimately show ?thesis by simp
  next
    case False
    then have "expo_down a e = e" by (subst expo_down.simps) auto
    with False "1.prems" show ?thesis by auto
  qed
qed

lemma expo_spec:
  "- 126 \<le> expo a \<and> expo a \<le> 127
   \<and> (expo a = 127 \<or> a < 2 powi (expo a + 1))
   \<and> (expo a = - 126 \<or> 2 powi (expo a) \<le> a)"
proof (cases "1 \<le> a")
  case True
  then have "2 powi 0 \<le> a" by simp
  from expo_up_spec [OF this] True show ?thesis by (auto simp: expo_def)
next
  case False
  then have "a < 2 powi (0 + 1)" by simp
  from expo_down_spec [OF this] False show ?thesis by (auto simp: expo_def)
qed

lemma powi_less_cancel: "(2::real) powi a < 2 powi b \<Longrightarrow> a < b"
  by (rule ccontr) (simp add: not_less power_int_increasing leD)

lemma powi_mono: "a \<le> b \<Longrightarrow> (2::real) powi a \<le> 2 powi b"
  by (simp add: power_int_increasing)

lemma powi_half: "(2::real) powi (e - 23) / 2 = 2 powi (e - 24)"
proof -
  have "(2::real) powi (e - 23) = 2 powi ((e - 24) + 1)" by simp
  also have "\<dots> = 2 powi (e - 24) * 2" by (subst power_int_add) simp_all
  finally show ?thesis by simp
qed

lemma powi_split24: "(2::real) powi (e + 1) = 2 ^ 24 * 2 powi (e - 23)"
proof -
  have "(2::real) powi (24 + (e - 23)) = 2 powi 24 * 2 powi (e - 23)"
    by (rule power_int_add) simp
  moreover have "24 + (e - 23) = e + 1" by simp
  ultimately have "(2::real) powi (e + 1) = 2 powi 24 * 2 powi (e - 23)" by (simp only:)
  then show ?thesis by simp
qed

lemma expo_le: "a < 2 powi (k + 1) \<Longrightarrow> - 126 \<le> k \<Longrightarrow> expo a \<le> k"
proof -
  assume a: "a < 2 powi (k + 1)" and k: "- 126 \<le> k"
  from expo_spec [of a] consider "expo a = - 126" | "2 powi (expo a) \<le> a" by blast
  then show ?thesis
  proof cases
    case 1
    with k show ?thesis by simp
  next
    case 2
    with a have "(2::real) powi (expo a) < 2 powi (k + 1)" by simp
    then have "expo a < k + 1" by (rule powi_less_cancel)
    then show ?thesis by simp
  qed
qed

lemma expo_eq:
  assumes "2 powi e \<le> a" "a < 2 powi (e + 1)" "- 126 \<le> e" "e \<le> 127"
  shows "expo a = e"
proof -
  have le: "expo a \<le> e" using assms by (simp add: expo_le)
  from expo_spec [of a] consider "expo a = 127" | "a < 2 powi (expo a + 1)" by blast
  then have "e \<le> expo a"
  proof cases
    case 1
    with assms show ?thesis by simp
  next
    case 2
    with assms have "(2::real) powi e < 2 powi (expo a + 1)" by simp
    then have "e < expo a + 1" by (rule powi_less_cancel)
    then show ?thesis by simp
  qed
  with le show ?thesis by simp
qed

subsection \<open>The error of rounding\<close>

lemma round_mag_err:
  fixes a :: real
  assumes "0 < a"
  defines "q \<equiv> 2 powi (expo a - 23)"
  shows "\<bar>of_int (rhe (a / q)) * q - a\<bar> \<le> 2 powi (expo a - 24)"
proof -
  have q: "0 < q" by (simp add: q_def)
  have "\<bar>of_int (rhe (a / q)) - a / q\<bar> \<le> 1 / 2" by (rule rhe_err)
  then have "\<bar>of_int (rhe (a / q)) - a / q\<bar> * q \<le> 1 / 2 * q"
    using q by (intro mult_right_mono) simp_all
  moreover have "\<bar>of_int (rhe (a / q)) - a / q\<bar> * q = \<bar>of_int (rhe (a / q)) * q - a\<bar>"
  proof -
    have "\<bar>of_int (rhe (a / q)) - a / q\<bar> * q = \<bar>(of_int (rhe (a / q)) - a / q) * q\<bar>"
      using q by (simp add: abs_mult)
    also have "(of_int (rhe (a / q)) - a / q) * q = of_int (rhe (a / q)) * q - a"
      using q by (simp add: field_simps)
    finally show ?thesis .
  qed
  moreover have "1 / 2 * q = 2 powi (expo a - 24)"
    using powi_half [of "expo a"] by (simp add: q_def)
  ultimately show ?thesis by simp
qed

lemma round32_abs_err:
  assumes "\<bar>x\<bar> < 2 powi (k + 1)" "- 126 \<le> k" "k \<le> 126"
  shows "\<exists>r. round32 x = Fin r \<and> \<bar>r - x\<bar> \<le> 2 powi (k - 24)"
proof (cases "x = 0")
  case True
  then show ?thesis by (simp add: round32_def)
next
  case False
  define a where "a = \<bar>x\<bar>"
  define q where "q = (2::real) powi (expo a - 23)"
  define r where "r = of_int (rhe (a / q)) * q"
  have a: "0 < a" using False by (simp add: a_def)
  have e: "expo a \<le> k" using assms by (simp add: expo_le a_def)
  have err: "\<bar>r - a\<bar> \<le> 2 powi (expo a - 24)"
    unfolding r_def q_def using round_mag_err [OF a] .
  also have "\<dots> \<le> 2 powi (k - 24)" using e by (intro powi_mono) simp
  finally have err': "\<bar>r - a\<bar> \<le> 2 powi (k - 24)" .
  have "r \<le> a + 2 powi (k - 24)" using err' by (simp add: abs_le_iff)
  also have "\<dots> < 2 powi (k + 1) + 2 powi (k - 24)" using assms by (simp add: a_def)
  also have "\<dots> \<le> 2 powi 127 + 2 powi 127"
    using assms by (intro add_mono powi_mono) simp_all
  also have "\<dots> = 2 powi 128" by simp
  finally have no: "\<not> 2 powi 128 \<le> r" by simp
  have res: "round32 x = Fin (sgn x * r)"
    using False no by (simp add: round32_def Let_def a_def q_def r_def)
  have "\<bar>sgn x * r - x\<bar> = \<bar>r - a\<bar>"
    using False by (cases "0 < x") (simp_all add: a_def sgn_if abs_if)
  with err' res show ?thesis by simp
qed

lemma round32_rel_err:
  assumes "2 powi (- 126) \<le> \<bar>x\<bar>" "\<bar>x\<bar> < 2 powi 127"
  shows "\<exists>r. round32 x = Fin r \<and> \<bar>r - x\<bar> \<le> \<bar>x\<bar> / 2 ^ 24
           \<and> (0 < x \<longrightarrow> 0 < r) \<and> (x < 0 \<longrightarrow> r < 0)"
proof -
  define a where "a = \<bar>x\<bar>"
  define q where "q = (2::real) powi (expo a - 23)"
  define r where "r = of_int (rhe (a / q)) * q"
  have a: "0 < a" using assms(1) by (simp add: a_def)
  then have x0: "x \<noteq> 0" by (auto simp: a_def)
  have lo: "2 powi (expo a) \<le> a"
    using expo_spec [of a] assms(1) by (auto simp: a_def)
  have e: "expo a \<le> 126" using assms(2) by (intro expo_le) (simp_all add: a_def)
  have err: "\<bar>r - a\<bar> \<le> 2 powi (expo a - 24)"
    unfolding r_def q_def using round_mag_err [OF a] .
  have "(2::real) powi (expo a - 24) = 2 powi (expo a) / 2 ^ 24"
    by (simp add: power_int_diff)
  also have "\<dots> \<le> a / 2 ^ 24" using lo by (simp add: divide_right_mono)
  finally have rel: "\<bar>r - a\<bar> \<le> a / 2 ^ 24" using err by simp
  have "r - a \<le> a / 2 ^ 24" using rel by (rule order_trans [OF abs_ge_self])
  then have "r \<le> a + a / 2 ^ 24" by linarith
  also have "\<dots> \<le> a + a" using a by (simp add: field_simps)
  also have "\<dots> < 2 powi 127 + 2 powi 127" using assms(2) by (simp add: a_def)
  also have "\<dots> = 2 powi 128" by simp
  finally have no: "\<not> 2 powi 128 \<le> r" by simp
  have rpos: "0 < r"
  proof -
    have "a - r \<le> a / 2 ^ 24" using rel by (simp only: abs_le_iff) linarith
    then have "a - a / 2 ^ 24 \<le> r" by linarith
    moreover have "0 < a - a / 2 ^ 24" using a by (simp add: field_simps)
    ultimately show ?thesis by linarith
  qed
  have res: "round32 x = Fin (sgn x * r)"
    using x0 no by (simp add: round32_def Let_def a_def q_def r_def)
  have "\<bar>sgn x * r - x\<bar> = \<bar>r - a\<bar>"
    using x0 by (cases "0 < x") (simp_all add: a_def sgn_if abs_if)
  with rel res rpos x0 show ?thesis by (auto simp: a_def sgn_if)
qed

lemma round32_err4:
  assumes "\<bar>x\<bar> < 4"
  shows "\<exists>r. round32 x = Fin r \<and> \<bar>r - x\<bar> \<le> 1 / 2 ^ 23"
proof -
  have "\<bar>x\<bar> < 2 powi (1 + 1)" using assms by simp
  from round32_abs_err [OF this] show ?thesis by (simp add: power_int_minus_divide)
qed

lemma round32_err1:
  assumes "\<bar>x\<bar> \<le> 1"
  shows "\<exists>r. round32 x = Fin r \<and> \<bar>r - x\<bar> \<le> 1 / 2 ^ 24"
proof -
  have "\<bar>x\<bar> < 2 powi (0 + 1)" using assms by simp
  from round32_abs_err [OF this] show ?thesis by (simp add: power_int_minus_divide)
qed

lemma powi_m126_le: "(2::real) powi (- 126) \<le> 1 / 2 ^ 25"
  by (simp add: power_int_minus_divide)

lemma pow24_lt: "(2::real) ^ 24 < 2 powi 127" "(2::real) ^ 49 < 2 powi 127"
  by simp_all

lemma round32_pos:
  assumes "1 / 2 ^ 25 \<le> x" "x \<le> 1"
  shows "\<exists>r. round32 x = Fin r \<and> 0 < r"
proof -
  have pos: "0 < x" using assms(1) by (rule less_le_trans [rotated]) simp
  have ab: "\<bar>x\<bar> = x" using pos by (rule abs_of_pos)
  have a: "2 powi (- 126) \<le> \<bar>x\<bar>" unfolding ab using powi_m126_le assms(1) by linarith
  have "x < 2 powi 127" using assms(2) by (rule le_less_trans) simp
  then have b: "\<bar>x\<bar> < 2 powi 127" unfolding ab .
  from round32_rel_err [OF a b] pos show ?thesis by blast
qed

lemma round32_nonzero:
  assumes "1 / 2 ^ 25 \<le> \<bar>x\<bar>" "\<bar>x\<bar> \<le> 1"
  shows "\<exists>r. round32 x = Fin r \<and> r \<noteq> 0"
proof -
  have a: "2 powi (- 126) \<le> \<bar>x\<bar>" using powi_m126_le assms(1) by linarith
  have b: "\<bar>x\<bar> < 2 powi 127" using assms(2) by (rule le_less_trans) simp
  have "x \<noteq> 0" using assms(1) by auto
  with round32_rel_err [OF a b] show ?thesis by (cases "0 < x") auto
qed

subsection \<open>Numbers that binary32 has\<close>

lemma round32_exact:
  assumes "x = of_int m * 2 powi j" "\<bar>m\<bar> < 2 ^ 24" "- 149 \<le> j" "\<bar>x\<bar> < 2 powi 128"
  shows "round32 x = Fin x"
proof (cases "x = 0")
  case True
  then show ?thesis by (simp add: round32_def)
next
  case False
  define a where "a = \<bar>x\<bar>"
  define e where "e = expo a"
  define q where "q = (2::real) powi (e - 23)"
  have a: "0 < a" using False by (simp add: a_def)
  have am: "a = of_int \<bar>m\<bar> * 2 powi j" by (simp add: a_def assms(1) abs_mult)
  have "of_int \<bar>m\<bar> < (2::real) ^ 24" using assms(2) by simp
  then have "a < 2 ^ 24 * 2 powi j" unfolding am by (intro mult_strict_right_mono) simp_all
  also have "\<dots> = 2 powi (j + 23 + 1)" by (simp add: power_int_add)
  finally have up: "a < 2 powi (j + 23 + 1)" .
  have ej: "e - 23 \<le> j"
  proof -
    have "e \<le> j + 23" unfolding e_def using up assms(3) by (intro expo_le) simp_all
    then show ?thesis by simp
  qed
  define n where "n = nat (j - (e - 23))"
  have pj: "(2::real) powi j = 2 ^ n * q"
  proof -
    have "j = int n + (e - 23)" using ej by (simp add: n_def)
    then have "(2::real) powi j = 2 powi (int n + (e - 23))" by simp
    also have "\<dots> = 2 powi (int n) * 2 powi (e - 23)" by (subst power_int_add) simp_all
    finally show ?thesis by (simp add: q_def)
  qed
  have q: "0 < q" by (simp add: q_def)
  have "a / q = of_int (\<bar>m\<bar> * 2 ^ n)" using q by (simp add: am pj)
  then have "rhe (a / q) = \<bar>m\<bar> * 2 ^ n" by (simp only: rhe_of_int)
  then have r: "of_int (rhe (a / q)) * q = a" using q by (simp add: am pj)
  have no: "\<not> 2 powi 128 \<le> a" using assms(4) by (simp add: a_def)
  have "round32 x = Fin (sgn x * a)"
    using False no r by (simp add: round32_def Let_def a_def [symmetric] e_def [symmetric] q_def [symmetric])
  moreover have "sgn x * a = x" by (simp add: a_def sgn_if abs_if)
  ultimately show ?thesis by simp
qed

lemma round32_idem:
  assumes "round32 x = Fin r"
  shows "round32 r = Fin r"
proof (cases "x = 0")
  case True
  with assms show ?thesis by (simp add: round32_def)
next
  case False
  define a where "a = \<bar>x\<bar>"
  define e where "e = expo a"
  define q where "q = (2::real) powi (e - 23)"
  define m where "m = rhe (a / q)"
  have a: "0 < a" using False by (simp add: a_def)
  have q: "0 < q" by (simp add: q_def)
  have fin: "\<not> 2 powi 128 \<le> of_int m * q" and r: "r = sgn x * (of_int m * q)"
    using assms False
    by (auto simp: round32_def Let_def a_def [symmetric] e_def [symmetric] q_def [symmetric]
        m_def [symmetric] split: if_splits)
  have m0: "0 \<le> m" unfolding m_def using a q by (intro rhe_ge) simp
  have e: "- 126 \<le> e" "e \<le> 127" using expo_spec [of a] by (simp_all add: e_def)
  have rabs: "\<bar>r\<bar> = of_int m * q" using False m0 q by (simp add: r abs_mult)
  have m_le: "m \<le> 2 ^ 24"
  proof (cases "e = 127")
    case True
    have "of_int m * q < 2 powi 128" using fin by simp
    also have "\<dots> = 2 ^ 24 * q" by (simp add: q_def True)
    finally have "(of_int m :: real) < 2 ^ 24" using q by simp
    then have "m < 2 ^ 24" by simp
    then show ?thesis by simp
  next
    case False
    then have "a < 2 powi (e + 1)" using expo_spec [of a] by (simp add: e_def)
    also have "\<dots> = 2 ^ 24 * q" unfolding q_def by (rule powi_split24)
    finally have "a / q \<le> of_int (2 ^ 24)" using q by (simp add: field_simps)
    then show ?thesis unfolding m_def by (rule rhe_le)
  qed
  show ?thesis
  proof (cases "m = 2 ^ 24")
    case True
    have "r = of_int (if 0 < x then 1 else - 1) * 2 powi (e + 1)"
    proof -
      have "(2::real) powi (e + 1) = of_int m * q"
        unfolding q_def True by (simp add: powi_split24)
      then show ?thesis using \<open>x \<noteq> 0\<close> by (simp add: r sgn_if)
    qed
    moreover have "\<bar>r\<bar> < 2 powi 128" using fin rabs by simp
    ultimately show ?thesis using e by (intro round32_exact [where j = "e + 1"]) auto
  next
    case False
    with m_le have "m < 2 ^ 24" by simp
    then have "\<bar>(if 0 < x then m else - m)\<bar> < 2 ^ 24" using m0 by simp
    moreover have "r = of_int (if 0 < x then m else - m) * 2 powi (e - 23)"
      using \<open>x \<noteq> 0\<close> by (simp add: r sgn_if q_def)
    moreover have "\<bar>r\<bar> < 2 powi 128" using fin rabs by simp
    ultimately show ?thesis using e by (intro round32_exact [where j = "e - 23"]) auto
  qed
qed

lemma is_f32_round32: "is_f32 (round32 x)"
  by (cases "round32 x") (auto simp: is_f32_def dest: round32_idem)

lemma round32_0: "round32 0 = Fin 0"
  by (simp add: round32_def)

lemma round32_int:
  assumes "\<bar>n\<bar> \<le> 2 ^ 24"
  shows "round32 (of_int n) = Fin (of_int n)"
proof (cases "\<bar>n\<bar> = 2 ^ 24")
  case True
  then have "(of_int n :: real) = of_int (if 0 < n then 1 else - 1) * 2 powi 24"
    by (auto simp: abs_if split: if_splits)
  moreover have "\<bar>of_int n :: real\<bar> < 2 powi 128"
  proof -
    have "\<bar>of_int n :: real\<bar> = of_int \<bar>n\<bar>" by simp
    also have "\<dots> = 2 ^ 24" unfolding True by simp
    finally show ?thesis by simp
  qed
  ultimately show ?thesis by (intro round32_exact [where j = 24]) auto
next
  case False
  with assms have lt: "\<bar>n\<bar> < 2 ^ 24" by simp
  have "\<bar>of_int n :: real\<bar> = of_int \<bar>n\<bar>" by simp
  also have "\<dots> < 2 ^ 24" using lt by simp
  finally have "\<bar>of_int n :: real\<bar> < 2 powi 128" by simp
  then show ?thesis using lt by (intro round32_exact [where j = 0 and m = n]) auto
qed

lemma round32_nat: "n \<le> 2 ^ 24 \<Longrightarrow> round32 (of_nat n) = Fin (of_nat n)"
proof -
  assume "n \<le> 2 ^ 24"
  then have "\<bar>int n\<bar> \<le> 2 ^ 24" by (simp add: of_nat_le_iff [of n "2 ^ 24", where 'a = int, simplified])
  from round32_int [OF this] show ?thesis by simp
qed

lemma round32_half_int:
  assumes "\<bar>k\<bar> \<le> 2 ^ 24"
  shows "round32 (of_int k / 2) = Fin (of_int k / 2)"
proof (cases "\<bar>k\<bar> = 2 ^ 24")
  case True
  then have "(of_int k / 2 :: real) = of_int (if 0 < k then 1 else - 1) * 2 powi 23"
    by (auto simp: abs_if split: if_splits)
  moreover have "\<bar>of_int k / 2 :: real\<bar> < 2 powi 128"
  proof -
    have "\<bar>of_int k / 2 :: real\<bar> = of_int \<bar>k\<bar> / 2" by simp
    also have "\<dots> = 2 ^ 23" unfolding True by simp
    finally show ?thesis by simp
  qed
  ultimately show ?thesis by (intro round32_exact [where j = 23]) auto
next
  case False
  with assms have lt: "\<bar>k\<bar> < 2 ^ 24" by simp
  have "\<bar>of_int k / 2 :: real\<bar> \<le> \<bar>of_int k\<bar>" by (simp del: of_int_abs)
  also have "\<dots> = of_int \<bar>k\<bar>" by simp
  also have "\<dots> < 2 ^ 24" using lt by simp
  also have "(2::real) ^ 24 < 2 powi 128" by simp
  finally have b: "\<bar>of_int k / 2 :: real\<bar> < 2 powi 128" .
  have e: "(of_int k / 2 :: real) = of_int k * 2 powi (- 1)"
    by (simp add: power_int_minus_divide)
  have j: "(- 149 :: int) \<le> - 1" by simp
  show ?thesis by (rule round32_exact [OF e lt j b])
qed

lemma round32_binade_half:
  assumes "1 / 2 \<le> z" "z < 1"
  shows "round32 z = Fin (of_int (rhe (z * 2 ^ 24)) / 2 ^ 24)"
proof -
  have e: "expo z = - 1"
    using assms by (intro expo_eq) (simp_all add: power_int_minus_divide)
  have z: "z \<noteq> 0" "\<bar>z\<bar> = z" "0 < z" using assms by simp_all
  have q: "(2::real) powi (- 1 - 23) = 1 / 2 ^ 24" by (simp add: power_int_minus_divide)
  have "of_int (rhe (z * 2 ^ 24)) \<le> (of_int (2 ^ 24) :: real)"
    using assms by (intro of_int_le_iff [THEN iffD2] rhe_le) simp
  then have "of_int (rhe (z * 2 ^ 24)) / 2 ^ 24 \<le> (1::real)" by simp
  also have "(1::real) < 2 powi 128" by simp
  finally have no: "\<not> 2 powi 128 \<le> of_int (rhe (z * 2 ^ 24)) / (2::real) ^ 24" by simp
  show ?thesis
    using z no unfolding round32_def Let_def e q z(2) by (simp add: sgn_if)
qed

lemma is_f32_fadd: "is_f32 (fadd x y)"
  by (cases x; cases y) (simp_all add: is_f32_round32, simp_all add: is_f32_def)

lemma fadd_zero_right: "is_f32 x \<Longrightarrow> fadd x (Fin 0) = x"
  by (cases x) (simp_all add: is_f32_def)

lemma fmax_fin: "fmax (Fin a) (Fin b) = Fin (max a b)"
  by (simp add: fmax_def max_def)

lemma fclamp_fin: "fclamp (Fin r) (Fin 0) (Fin 1) = Fin (min (max r 0) 1)"
  by (simp add: fclamp_def fmax_def fmin_def min_def max_def)

lemma float_minus_one:
  assumes "is_f32 (Fin x)" "1 / 2 \<le> x" "x \<le> 1"
  shows "fsub (Fin x) (Fin 1) = Fin (x - 1)"
proof (cases "x = 1")
  case True
  then show ?thesis by (simp add: fsub_def round32_0)
next
  case False
  with assms have x1: "x < 1" by simp
  define m where "m = rhe (x * 2 ^ 24)"
  have "round32 x = Fin (of_int m / 2 ^ 24)"
    unfolding m_def by (rule round32_binade_half [OF assms(2) x1])
  moreover have "round32 x = Fin x" using assms(1) by (simp add: is_f32_def)
  ultimately have xm: "x = of_int m / 2 ^ 24" by simp
  have "of_int (2 ^ 23) \<le> x * 2 ^ 24" using assms(2) by simp
  then have lo: "2 ^ 23 \<le> m" unfolding m_def by (rule rhe_ge)
  have "x * 2 ^ 24 \<le> of_int (2 ^ 24)" using assms(3) by simp
  then have hi: "m \<le> 2 ^ 24" unfolding m_def by (rule rhe_le)
  have e: "x - 1 = of_int (m - 2 ^ 24) * 2 powi (- 24)"
    by (simp add: xm power_int_minus_divide field_simps)
  have k: "\<bar>m - 2 ^ 24\<bar> < 2 ^ 24" using lo hi by simp
  have j: "(- 149 :: int) \<le> - 24" by simp
  have "\<bar>x - 1\<bar> \<le> 1" using assms(2,3) by simp
  also have "(1::real) < 2 powi 128" by simp
  finally have b: "\<bar>x - 1\<bar> < 2 powi 128" .
  have "round32 (x - 1) = Fin (x - 1)" by (rule round32_exact [OF e k j b])
  then show ?thesis by (simp add: fsub_def)
qed

lemma float_minus_zero: "is_f32 (Fin x) \<Longrightarrow> fsub (Fin x) (Fin 0) = Fin x"
  by (simp add: fsub_def is_f32_def)

subsection \<open>The example uniforms\<close>

lemma default_uniforms32_eq:
  "default_uniforms32 =
     \<lparr>uTexture32 = 0, uResolution32 = FVec2 (Fin 1600) (Fin 900),
      uTextureSize32 = FVec2 (Fin 1) (Fin 1),
      uMouse32 = FVec2 (Fin 800) (Fin 450),
      uTime32 = Fin (5368709 / 536870912),
      uParallaxStrength32 = Fin (13421773 / 134217728),
      uDistortionMultiplier32 = Fin 10,
      uGlassStrength32 = Fin 2,
      uStripesFrequency32 = Fin 35,
      uGlassSmoothness32 = Fin (2748779 / 274877906944),
      uEdgePadding32 = Fin (13421773 / 134217728),
      uFlowSpeed32 = Fin (5368709 / 536870912)\<rparr>"
  by (simp add: default_uniforms32_def upload_def upload_vec2_def example_mounted_def f32_eval)

lemmas glass32_eval = fractalGlass_def fractalGlass_loop.simps displacement_def fmod_def
  fsub_def f32_eval

lemma default_uniforms32_glass: "fractalGlass default_uniforms32 (Fin (1 / 2)) (Fin (5368709 / 536870912))
   = Fin (554457 / 1048576)"
  unfolding default_uniforms32_eq by (simp add: glass32_eval)

lemma default_uniforms32_edge: "main_edgeFactor default_uniforms32 (FVec2 (Fin (1 / 2)) (Fin (1 / 2))) = Fin 1"
  unfolding default_uniforms32_eq
  by (simp add: main_edgeFactor_def smoothEdge_def fsub_def f32_eval)

lemma default_uniforms32_distorted: "main_distorted default_uniforms32 (FVec2 (Fin (1 / 2)) (Fin (1 / 2)))
   = FVec2 (Fin (554457 / 1048576)) (Fin (1 / 2))"
proof -
  have t: "uTime32 default_uniforms32 = Fin (5368709 / 536870912)" by (simp add: default_uniforms32_eq)
  show ?thesis
    unfolding main_distorted_def Let_def default_uniforms32_edge t
    by (simp add: default_uniforms32_glass mix_def fsub_def f32_eval)
qed

lemma overflow_uniforms32_eq: "overflow_uniforms32 = \<lparr>uTexture32 = 0, uResolution32 = FVec2 (Fin 1600) (Fin 900),
      uTextureSize32 = FVec2 (Fin 1) (Fin 1),
      uMouse32 = FVec2 (Fin 800) (Fin 450),
      uTime32 = Fin (5368709 / 536870912),
      uParallaxStrength32 = Fin (13421773 / 134217728),
      uDistortionMultiplier32 = Fin 300000000549775575777803994281145270272,
      uGlassStrength32 = Fin 100,
      uStripesFrequency32 = Fin 35,
      uGlassSmoothness32 = Fin (2748779 / 274877906944),
      uEdgePadding32 = Fin (13421773 / 134217728),
      uFlowSpeed32 = Fin (5368709 / 536870912)\<rparr>"
  by (simp add: overflow_uniforms32_def upload_def upload_vec2_def example_mounted_def f32_eval)

lemma overflow_uniforms32_glass: "fractalGlass overflow_uniforms32 (Fin (1 / 2)) (Fin (5368709 / 536870912))
   = Fin (4065479 / 2097152)"
  unfolding overflow_uniforms32_eq
  by (simp add: fractalGlass_def fractalGlass_loop.simps displacement_def fmod_def
      fsub_def f32_eval)

lemma overflow_uniforms32_edge: "main_edgeFactor overflow_uniforms32 (FVec2 (Fin (1 / 2)) (Fin (1 / 2))) = Fin 1"
  unfolding overflow_uniforms32_eq
  by (simp add: main_edgeFactor_def smoothEdge_def fsub_def f32_eval)

lemma overflow_uniforms32_distorted: "main_distorted overflow_uniforms32 (FVec2 (Fin (1 / 2)) (Fin (1 / 2)))
   = FVec2 (Fin (4065479 / 2097152)) (Fin (1 / 2))"
proof -
  have t: "uTime32 overflow_uniforms32 = Fin (5368709 / 536870912)" by (simp add: overflow_uniforms32_eq)
  show ?thesis
    unfolding main_distorted_def Let_def overflow_uniforms32_edge t
    by (simp add: overflow_uniforms32_glass mix_def fsub_def f32_eval)
qed

section \<open>Properties of the shader\<close>

subsection \<open>Degenerate texture\<close>

text \<open>
  Claim C6. When the texture is narrower or lower than one pixel, \<open>getCoverUV\<close> returns
  the coordinate it was given, whatever the coordinate and the resolution.
\<close>

theorem getCoverUV_degenerate:
  "flt (fvec_x textureSize) (Fin 1) \<or> flt (fvec_y textureSize) (Fin 1) \<Longrightarrow>
     getCoverUV U uv textureSize = uv"
  by (simp add: getCoverUV_def)

theorem getCoverUV_degenerate_witness:
  "(flt (fvec_x (FVec2 (Fin (1 / 2)) (Fin 800))) (Fin 1)
      \<or> flt (fvec_y (FVec2 (Fin (1 / 2)) (Fin 800))) (Fin 1))
   \<and> getCoverUV default_uniforms32 (FVec2 (Fin (1 / 4)) (Fin (3 / 4)))
        (FVec2 (Fin (1 / 2)) (Fin 800))
       = FVec2 (Fin (1 / 4)) (Fin (3 / 4))"
proof -
  have d: "flt (fvec_x (FVec2 (Fin (1 / 2)) (Fin 800))) (Fin 1)
      \<or> flt (fvec_y (FVec2 (Fin (1 / 2)) (Fin 800))) (Fin 1)"
    by simp
  from getCoverUV_degenerate [OF d] d show ?thesis by blast
qed

subsection \<open>Cover fit\<close>

lemma quotient_bound:
  fixes w t :: real
  assumes "1 \<le> w" "w \<le> 2 ^ 24" "1 \<le> t" "t \<le> 2 ^ 24"
  shows "\<exists>q. fdiv (Fin w) (Fin t) = Fin q \<and> w / t * (1 - 1 / 2 ^ 24) \<le> q \<and> q \<le> 2 ^ 25 \<and> 0 < q"
proof -
  have t0: "t \<noteq> 0" using assms by simp
  have lo: "1 / 2 ^ 24 \<le> w / t" using assms by (simp add: field_simps) 
  have hi: "w / t \<le> 2 ^ 24" using assms by (simp add: field_simps)
  have pos: "0 < w / t" using assms by simp
  have "(1::real) / 2 ^ 25 \<le> 1 / 2 ^ 24" by simp
  with powi_m126_le lo have "2 powi (- 126) \<le> w / t" by linarith
  have ab: "\<bar>w / t\<bar> = w / t" using pos by (rule abs_of_pos)
  have a: "2 powi (- 126) \<le> \<bar>w / t\<bar>" unfolding ab by fact
  have "w / t < 2 powi 127" using hi pow24_lt(1) by (rule le_less_trans)
  then have b: "\<bar>w / t\<bar> < 2 powi 127" unfolding ab .
  from round32_rel_err [OF a b] obtain q where q: "round32 (w / t) = Fin q"
    and e: "\<bar>q - w / t\<bar> \<le> \<bar>w / t\<bar> / 2 ^ 24" and p: "0 < q" using pos by blast
  have "w / t - q \<le> w / t / 2 ^ 24" using abs_le_D2 [OF e] unfolding ab by linarith
  then have l: "w / t * (1 - 1 / 2 ^ 24) \<le> q" by (simp add: algebra_simps)
  have "q - w / t \<le> w / t / 2 ^ 24" using abs_le_D1 [OF e] unfolding ab by linarith
  then have "q \<le> w / t + w / t / 2 ^ 24" by linarith
  also have "\<dots> \<le> 2 ^ 24 + 2 ^ 24 / 2 ^ 24" using hi by (intro add_mono divide_right_mono) simp_all
  also have "\<dots> \<le> 2 ^ 25" by simp
  finally have u: "q \<le> 2 ^ 25" .
  show ?thesis using q l u p t0 by simp
qed

lemma product_bound:
  fixes t s :: real
  assumes "1 \<le> t" "t \<le> 2 ^ 24" "0 < s" "s \<le> 2 ^ 25" "1 / 2 ^ 25 \<le> t * s"
  shows "\<exists>r. fmul (Fin t) (Fin s) = Fin r \<and> t * s * (1 - 1 / 2 ^ 24) \<le> r"
proof -
  have pos: "0 < t * s" using assms by simp
  have "t * s \<le> 2 ^ 24 * 2 ^ 25" using assms by (intro mult_mono) simp_all
  then have hi: "t * s \<le> 2 ^ 49" by simp
  have ab: "\<bar>t * s\<bar> = t * s" using pos by (rule abs_of_pos)
  have "2 powi (- 126) \<le> t * s" using assms(5) powi_m126_le by linarith
  then have a: "2 powi (- 126) \<le> \<bar>t * s\<bar>" unfolding ab .
  have "t * s < 2 powi 127" using hi pow24_lt(2) by (rule le_less_trans)
  then have b: "\<bar>t * s\<bar> < 2 powi 127" unfolding ab .
  from round32_rel_err [OF a b] obtain r where r: "round32 (t * s) = Fin r"
    and e: "\<bar>r - t * s\<bar> \<le> \<bar>t * s\<bar> / 2 ^ 24" by blast
  have "t * s - r \<le> t * s / 2 ^ 24" using abs_le_D2 [OF e] unfolding ab by linarith
  then have "t * s * (1 - 1 / 2 ^ 24) \<le> r" by (simp add: algebra_simps)
  with r show ?thesis by simp
qed

lemma scaled_axis:
  fixes w t s q :: real
  assumes "1 \<le> w" "w \<le> 2 ^ 24" "1 \<le> t" "t \<le> 2 ^ 24"
    and "w / t * (1 - 1 / 2 ^ 24) \<le> q" "q \<le> s" "s \<le> 2 ^ 25"
  shows "\<exists>r. fmul (Fin t) (Fin s) = Fin r \<and> w * (1 - 1 / 2 ^ 23) \<le> r"
proof -
  define c :: real where "c = 1 - 1 / 2 ^ 24"
  have c: "0 < c" "1 / 2 ^ 25 \<le> c" "1 - 1 / 2 ^ 23 \<le> c * c" by (simp_all add: c_def)
  have "0 < w / t * c" using assms c by simp
  then have s0: "0 < s" using assms(5,6) unfolding c_def by linarith
  have "w * c = t * (w / t * c)" using assms by simp
  also have "\<dots> \<le> t * s" using assms by (intro mult_left_mono) (simp_all add: c_def)
  finally have ts: "w * c \<le> t * s" .
  have "1 / 2 ^ 25 \<le> 1 * c" using c by simp
  also have "\<dots> \<le> w * c" using assms(1) c by (intro mult_right_mono) simp_all
  finally have "1 / 2 ^ 25 \<le> t * s" using ts by linarith
  from product_bound [OF assms(3,4) s0 assms(7) this]
  obtain r where r: "fmul (Fin t) (Fin s) = Fin r" and l: "t * s * c \<le> r"
    unfolding c_def by blast
  have "w * (1 - 1 / 2 ^ 23) \<le> w * (c * c)"
    using assms(1) c by (intro mult_left_mono) simp_all
  also have "\<dots> = w * c * c" by simp
  also have "\<dots> \<le> t * s * c" using ts c by (intro mult_right_mono) simp_all
  also have "\<dots> \<le> r" by (rule l)
  finally show ?thesis using r by blast
qed

lemma cover_scaled_bound:
  fixes w h tw th :: real
  assumes "1 \<le> w" "w \<le> 2 ^ 24" "1 \<le> h" "h \<le> 2 ^ 24"
    and "1 \<le> tw" "tw \<le> 2 ^ 24" "1 \<le> th" "th \<le> 2 ^ 24"
  shows "\<exists>sx sy. cover_scaledSize (with_resolution U w h) (FVec2 (Fin tw) (Fin th))
            = FVec2 (Fin sx) (Fin sy)
          \<and> w * (1 - 1 / 2 ^ 23) \<le> sx \<and> h * (1 - 1 / 2 ^ 23) \<le> sy"
proof -
  from quotient_bound [OF assms(1,2,5,6)] obtain qx where
    qx: "fdiv (Fin w) (Fin tw) = Fin qx" "w / tw * (1 - 1 / 2 ^ 24) \<le> qx" "qx \<le> 2 ^ 25"
    by blast
  from quotient_bound [OF assms(3,4,7,8)] obtain qy where
    qy: "fdiv (Fin h) (Fin th) = Fin qy" "h / th * (1 - 1 / 2 ^ 24) \<le> qy" "qy \<le> 2 ^ 25"
    by blast
  have sc: "cover_scale (with_resolution U w h) (FVec2 (Fin tw) (Fin th)) = Fin (max qx qy)"
    using qx(1) qy(1)
    by (simp add: cover_scale_def with_resolution_def fvec2_div_def fmax_fin Let_def
        del: fdiv.simps)
  have m: "max qx qy \<le> 2 ^ 25" using qx(3) qy(3) by simp
  from scaled_axis [OF assms(1,2,5,6) qx(2) _ m] obtain sx where
    sx: "fmul (Fin tw) (Fin (max qx qy)) = Fin sx" "w * (1 - 1 / 2 ^ 23) \<le> sx" by auto
  from scaled_axis [OF assms(3,4,7,8) qy(2) _ m] obtain sy where
    sy: "fmul (Fin th) (Fin (max qx qy)) = Fin sy" "h * (1 - 1 / 2 ^ 23) \<le> sy" by auto
  show ?thesis
    unfolding cover_scaledSize_def sc fvec2_scale_def using sx sy
    by (simp del: fmul.simps)
qed

text \<open>
  Claim C1, as stated, fails: for a texture of 800 by 600 in a viewport of 1680 by 1050
  the scale is the binary32 number next below 2.1, the scaled width is
  \<open>13762559 / 8192 = 1679.99987...\<close>, less than the width 1680 of the viewport, and the
  horizontal offset is \<open>1 / 16384\<close>, a positive margin.
\<close>

theorem cover_fit_binary32_counterexample:
  "cover_scale (with_resolution default_uniforms32 1680 1050) (FVec2 (Fin 800) (Fin 600))
     = Fin (4404019 / 2097152)
   \<and> cover_scaledSize (with_resolution default_uniforms32 1680 1050) (FVec2 (Fin 800) (Fin 600))
     = FVec2 (Fin (13762559 / 8192)) (Fin 1260)
   \<and> (13762559 / 8192 :: real) < 1680
   \<and> cover_offset (with_resolution default_uniforms32 1680 1050) (FVec2 (Fin 800) (Fin 600))
     = FVec2 (Fin (1 / 16384)) (Fin (- 105))"
  by (simp add: with_resolution_def default_uniforms32_eq cover_offset_def cover_scaledSize_def
      cover_scale_def fvec2_defs fmax_def fsub_def f32_eval)

text \<open>
  Claim C1, amended. For a viewport \<open>(w, h)\<close> and a texture \<open>(tw, th)\<close> with all four
  sizes between 1 and \<open>2 ^ 24\<close>, \<open>getCoverUV\<close> works with the scale
  \<open>max (w / tw) (h / th)\<close>, each quotient rounded to binary32; the scaled size is
  \<open>(tw * scale, th * scale)\<close>, rounded, and is at least \<open>1 - 2 ^ -23\<close> times the viewport
  on both axes (it can fall short of the viewport by that rounding error); the offset
  is half the rounded difference of viewport and scaled size; and the result is
  \<open>(uv * (w, h) - offset) / scaledSize\<close>. For a texture of 800 by 600 in a viewport of
  1600 by 900 the scale is exactly 2, the scaled size (1600, 1200) and the offset
  (0, -150).
\<close>

theorem cover_fit_binary32:
  "(1 \<le> w \<and> w \<le> 2 ^ 24 \<and> 1 \<le> h \<and> h \<le> 2 ^ 24
      \<and> 1 \<le> tw \<and> tw \<le> 2 ^ 24 \<and> 1 \<le> th \<and> th \<le> 2 ^ 24 \<longrightarrow>
      cover_scale (with_resolution U w h) (FVec2 (Fin tw) (Fin th))
        = fmax (fdiv (Fin w) (Fin tw)) (fdiv (Fin h) (Fin th))
    \<and> cover_scaledSize (with_resolution U w h) (FVec2 (Fin tw) (Fin th))
        = FVec2 (fmul (Fin tw) (cover_scale (with_resolution U w h) (FVec2 (Fin tw) (Fin th))))
                (fmul (Fin th) (cover_scale (with_resolution U w h) (FVec2 (Fin tw) (Fin th))))
    \<and> (\<exists>sx sy. cover_scaledSize (with_resolution U w h) (FVec2 (Fin tw) (Fin th))
                  = FVec2 (Fin sx) (Fin sy)
          \<and> w * (1 - 1 / 2 ^ 23) \<le> sx \<and> h * (1 - 1 / 2 ^ 23) \<le> sy)
    \<and> cover_offset (with_resolution U w h) (FVec2 (Fin tw) (Fin th))
        = fvec2_scale
            (fvec2_sub (FVec2 (Fin w) (Fin h))
               (cover_scaledSize (with_resolution U w h) (FVec2 (Fin tw) (Fin th))))
            (Fin (1 / 2))
    \<and> getCoverUV (with_resolution U w h) uv (FVec2 (Fin tw) (Fin th))
        = fvec2_div
            (fvec2_sub (fvec2_mul uv (FVec2 (Fin w) (Fin h)))
               (cover_offset (with_resolution U w h) (FVec2 (Fin tw) (Fin th))))
            (cover_scaledSize (with_resolution U w h) (FVec2 (Fin tw) (Fin th))))
   \<and> cover_scale (with_resolution U 1600 900) (FVec2 (Fin 800) (Fin 600)) = Fin 2
   \<and> cover_scaledSize (with_resolution U 1600 900) (FVec2 (Fin 800) (Fin 600))
       = FVec2 (Fin 1600) (Fin 1200)
   \<and> cover_offset (with_resolution U 1600 900) (FVec2 (Fin 800) (Fin 600))
       = FVec2 (Fin 0) (Fin (- 150))"
proof -
  have general: "cover_scale (with_resolution U w h) (FVec2 (Fin tw) (Fin th))
        = fmax (fdiv (Fin w) (Fin tw)) (fdiv (Fin h) (Fin th))
    \<and> cover_scaledSize (with_resolution U w h) (FVec2 (Fin tw) (Fin th))
        = FVec2 (fmul (Fin tw) (cover_scale (with_resolution U w h) (FVec2 (Fin tw) (Fin th))))
                (fmul (Fin th) (cover_scale (with_resolution U w h) (FVec2 (Fin tw) (Fin th))))
    \<and> (\<exists>sx sy. cover_scaledSize (with_resolution U w h) (FVec2 (Fin tw) (Fin th))
                  = FVec2 (Fin sx) (Fin sy)
          \<and> w * (1 - 1 / 2 ^ 23) \<le> sx \<and> h * (1 - 1 / 2 ^ 23) \<le> sy)
    \<and> cover_offset (with_resolution U w h) (FVec2 (Fin tw) (Fin th))
        = fvec2_scale
            (fvec2_sub (FVec2 (Fin w) (Fin h))
               (cover_scaledSize (with_resolution U w h) (FVec2 (Fin tw) (Fin th))))
            (Fin (1 / 2))
    \<and> getCoverUV (with_resolution U w h) uv (FVec2 (Fin tw) (Fin th))
        = fvec2_div
            (fvec2_sub (fvec2_mul uv (FVec2 (Fin w) (Fin h)))
               (cover_offset (with_resolution U w h) (FVec2 (Fin tw) (Fin th))))
            (cover_scaledSize (with_resolution U w h) (FVec2 (Fin tw) (Fin th)))"
    if sz: "1 \<le> w \<and> w \<le> 2 ^ 24 \<and> 1 \<le> h \<and> h \<le> 2 ^ 24
      \<and> 1 \<le> tw \<and> tw \<le> 2 ^ 24 \<and> 1 \<le> th \<and> th \<le> 2 ^ 24"
  proof -
    have a: "cover_scale (with_resolution U w h) (FVec2 (Fin tw) (Fin th))
        = fmax (fdiv (Fin w) (Fin tw)) (fdiv (Fin h) (Fin th))"
      by (simp add: cover_scale_def with_resolution_def fvec2_div_def Let_def
          del: fdiv.simps)
    have b: "cover_scaledSize (with_resolution U w h) (FVec2 (Fin tw) (Fin th))
        = FVec2 (fmul (Fin tw) (cover_scale (with_resolution U w h) (FVec2 (Fin tw) (Fin th))))
                (fmul (Fin th) (cover_scale (with_resolution U w h) (FVec2 (Fin tw) (Fin th))))"
      by (simp add: cover_scaledSize_def fvec2_scale_def)
    have c: "\<exists>sx sy. cover_scaledSize (with_resolution U w h) (FVec2 (Fin tw) (Fin th))
                  = FVec2 (Fin sx) (Fin sy)
          \<and> w * (1 - 1 / 2 ^ 23) \<le> sx \<and> h * (1 - 1 / 2 ^ 23) \<le> sy"
      using sz by (intro cover_scaled_bound) simp_all
    have d: "cover_offset (with_resolution U w h) (FVec2 (Fin tw) (Fin th))
        = fvec2_scale
            (fvec2_sub (FVec2 (Fin w) (Fin h))
               (cover_scaledSize (with_resolution U w h) (FVec2 (Fin tw) (Fin th))))
            (Fin (1 / 2))"
      by (simp add: cover_offset_def with_resolution_def)
    have g: "\<not> (flt (Fin tw) (Fin 1) \<or> flt (Fin th) (Fin 1))" using sz by simp
    have e: "getCoverUV (with_resolution U w h) uv (FVec2 (Fin tw) (Fin th))
        = fvec2_div
            (fvec2_sub (fvec2_mul uv (FVec2 (Fin w) (Fin h)))
               (cover_offset (with_resolution U w h) (FVec2 (Fin tw) (Fin th))))
            (cover_scaledSize (with_resolution U w h) (FVec2 (Fin tw) (Fin th)))"
      using g
      by (simp add: getCoverUV_def cover_offset_def cover_scaledSize_def
          cover_scale_def with_resolution_def Let_def del: fdiv.simps fmul.simps)
    from a b c d e show ?thesis by blast
  qed
  have example: "cover_scale (with_resolution U 1600 900) (FVec2 (Fin 800) (Fin 600)) = Fin 2
    \<and> cover_scaledSize (with_resolution U 1600 900) (FVec2 (Fin 800) (Fin 600))
       = FVec2 (Fin 1600) (Fin 1200)
    \<and> cover_offset (with_resolution U 1600 900) (FVec2 (Fin 800) (Fin 600))
       = FVec2 (Fin 0) (Fin (- 150))"
    by (simp add: with_resolution_def cover_offset_def cover_scaledSize_def
        cover_scale_def fvec2_defs fmax_def fsub_def f32_eval)
  from general example show ?thesis by blast
qed

theorem cover_fit_binary32_witness:
  "(1::real) \<le> 1680 \<and> (1680::real) \<le> 2 ^ 24 \<and> (1::real) \<le> 1050 \<and> (1050::real) \<le> 2 ^ 24
   \<and> (1::real) \<le> 800 \<and> (800::real) \<le> 2 ^ 24 \<and> (1::real) \<le> 600 \<and> (600::real) \<le> 2 ^ 24
   \<and> cover_scaledSize (with_resolution default_uniforms32 1680 1050) (FVec2 (Fin 800) (Fin 600))
       = FVec2 (Fin (13762559 / 8192)) (Fin 1260)
   \<and> (1680::real) * (1 - 1 / 2 ^ 23) \<le> 13762559 / 8192
   \<and> (1050::real) * (1 - 1 / 2 ^ 23) \<le> 1260"
proof -
  have sz: "(1::real) \<le> 1680 \<and> (1680::real) \<le> 2 ^ 24 \<and> (1::real) \<le> 1050
      \<and> (1050::real) \<le> 2 ^ 24 \<and> (1::real) \<le> 800 \<and> (800::real) \<le> 2 ^ 24
      \<and> (1::real) \<le> 600 \<and> (600::real) \<le> 2 ^ 24"
    by simp
  have v: "cover_scaledSize (with_resolution default_uniforms32 1680 1050) (FVec2 (Fin 800) (Fin 600))
       = FVec2 (Fin (13762559 / 8192)) (Fin 1260)"
    by (simp add: with_resolution_def default_uniforms32_eq cover_scaledSize_def cover_scale_def
        fvec2_defs fmax_def f32_eval)
  from cover_fit_binary32 [where w = 1680 and h = 1050 and tw = 800 and th = 600
      and U = default_uniforms32] sz
  obtain sx sy where
    "cover_scaledSize (with_resolution default_uniforms32 1680 1050) (FVec2 (Fin 800) (Fin 600))
       = FVec2 (Fin sx) (Fin sy)"
    and "1680 * (1 - 1 / 2 ^ 23) \<le> sx" and "1050 * (1 - 1 / 2 ^ 23) \<le> sy"
    by blast
  then have "(1680::real) * (1 - 1 / 2 ^ 23) \<le> 13762559 / 8192
      \<and> (1050::real) * (1 - 1 / 2 ^ 23) \<le> 1260"
    unfolding v by simp
  with sz v show ?thesis by blast
qed

subsection \<open>Edge fade\<close>

lemma one_minus_padding:
  assumes "1 / 2 ^ 25 < p" "p < 1 / 2"
  shows "\<exists>e1. fsub (Fin 1) (Fin p) = Fin e1 \<and> 1 / 2 \<le> e1 \<and> e1 \<le> 1 - 1 / 2 ^ 24"
proof -
  define z where "z = 1 - p"
  have z: "1 / 2 \<le> z" "z < 1" "z < 1 - 1 / 2 ^ 25" using assms by (simp_all add: z_def)
  define m where "m = rhe (z * 2 ^ 24)"
  have r: "round32 z = Fin (of_int m / 2 ^ 24)"
    unfolding m_def by (rule round32_binade_half [OF z(1,2)])
  have "of_int (2 ^ 23) \<le> z * 2 ^ 24" using z(1) by simp
  then have lo: "2 ^ 23 \<le> m" unfolding m_def by (rule rhe_ge)
  have "z * 2 ^ 24 < (1 - 1 / 2 ^ 25) * 2 ^ 24" using z(3) by (intro mult_strict_right_mono) simp_all
  also have "\<dots> = of_int (2 ^ 24 - 1) + 1 / 2" by simp
  finally have hi: "m \<le> 2 ^ 24 - 1" unfolding m_def by (rule rhe_le_half)
  have "(of_int (2 ^ 23) :: real) \<le> of_int m" using lo by (simp only: of_int_le_iff)
  then have a: "1 / 2 \<le> of_int m / (2::real) ^ 24" by simp
  have "(of_int m :: real) \<le> of_int (2 ^ 24 - 1)" using hi by (simp only: of_int_le_iff)
  then have b: "of_int m / (2::real) ^ 24 \<le> 1 - 1 / 2 ^ 24" by (simp add: field_simps)
  have "fsub (Fin 1) (Fin p) = round32 z" by (simp add: fsub_def z_def)
  then have "fsub (Fin 1) (Fin p) = Fin (of_int m / 2 ^ 24)" by (simp only: r)
  with a b show ?thesis by blast
qed

lemma hermite32_zero:
  "fmul (fmul (Fin 0) (Fin 0)) (fsub (Fin 3) (fmul (Fin 2) (Fin 0))) = Fin 0"
  by (simp add: fsub_def f32_eval)

lemma fclamp_zero: "fclamp (Fin 0) (Fin 0) (Fin 1) = Fin 0"
  by (simp add: fclamp_def fmax_def fmin_def)

lemma smoothstep_at_edge0:
  assumes "fsub e1 e0 = Fin d" "d \<noteq> 0" "fsub x e0 = Fin 0"
  shows "smoothstep e0 e1 x = Fin 0"
  unfolding smoothstep_def Let_def assms(1) assms(3)
  using assms(2) by (simp add: round32_0 fclamp_zero hermite32_zero del: fmul.simps)

lemma smoothEdge_shape:
  assumes "1 / 2 ^ 25 < p" and "p < 1 / 2"
  shows "smoothEdge (Fin 0) (Fin p) = Fin 0
    \<and> smoothEdge (Fin 1) (Fin p) = Fin 0
    \<and> smoothEdge (Fin (1 / 2)) (Fin p) = Fin 1
    \<and> (\<forall>x. \<not> flt (Fin x) (Fin p) \<and> \<not> flt (fsub (Fin 1) (Fin p)) (Fin x)
          \<longrightarrow> smoothEdge (Fin x) (Fin p) = Fin 1)"
proof -
  from one_minus_padding [OF assms] obtain e1 where
    e1: "fsub (Fin 1) (Fin p) = Fin e1" "1 / 2 \<le> e1" "e1 \<le> 1 - 1 / 2 ^ 24" by blast
  have p0: "0 < p" using assms(1) by (rule less_trans [rotated]) simp
  have a: "smoothEdge (Fin 0) (Fin p) = Fin 0"
  proof -
    have "1 / 2 ^ 25 \<le> \<bar>p\<bar>" "\<bar>p\<bar> \<le> 1" using assms p0 by simp_all
    from round32_nonzero [OF this] obtain d where d: "round32 p = Fin d" "d \<noteq> 0" by blast
    have "smoothstep (Fin 0) (Fin p) (Fin 0) = Fin 0"
      by (rule smoothstep_at_edge0 [where d = d]) (simp_all add: fsub_def d round32_0)
    then show ?thesis using p0 by (simp add: smoothEdge_def Let_def)
  qed
  have b: "smoothEdge (Fin 1) (Fin p) = Fin 0"
  proof -
    have "1 / 2 ^ 25 \<le> \<bar>e1 - 1\<bar>" "\<bar>e1 - 1\<bar> \<le> 1" using e1 by simp_all
    from round32_nonzero [OF this] obtain d where d: "round32 (e1 - 1) = Fin d" "d \<noteq> 0"
      by blast
    have "smoothstep (Fin 1) (Fin e1) (Fin 1) = Fin 0"
      by (rule smoothstep_at_edge0 [where d = d]) (simp_all add: fsub_def d round32_0)
    moreover have "\<not> flt (Fin 1) (Fin p)" using assms by simp
    moreover have "flt (Fin e1) (Fin 1)" using e1 by simp
    ultimately show ?thesis by (simp add: smoothEdge_def Let_def e1(1))
  qed
  have c: "smoothEdge (Fin (1 / 2)) (Fin p) = Fin 1"
    using assms e1 by (simp add: smoothEdge_def Let_def)
  have d: "smoothEdge (Fin x) (Fin p) = Fin 1"
    if "\<not> flt (Fin x) (Fin p) \<and> \<not> flt (fsub (Fin 1) (Fin p)) (Fin x)" for x
    using that by (simp add: smoothEdge_def Let_def)
  from a b c d show ?thesis by blast
qed

lemma hermite32_err:
  assumes "0 \<le> t" "t \<le> 1"
  shows "\<exists>v. fmul (fmul (Fin t) (Fin t)) (fsub (Fin 3) (fmul (Fin 2) (Fin t))) = Fin v
           \<and> \<bar>v - hermite t\<bar> \<le> 1 / 2 ^ 20"
proof -
  have tt: "\<bar>t * t\<bar> \<le> 1" using assms by (simp add: abs_mult mult_le_one)
  from round32_err1 [OF tt] obtain a where a: "round32 (t * t) = Fin a"
    and ae: "\<bar>a - t * t\<bar> \<le> 1 / 2 ^ 24" by blast
  have "\<bar>2 * t\<bar> < 4" using assms by simp
  from round32_err4 [OF this] obtain b where b: "round32 (2 * t) = Fin b"
    and be: "\<bar>b - 2 * t\<bar> \<le> 1 / 2 ^ 23" by blast
  have b_lo: "- (1 / 2 ^ 23) \<le> b" and b_hi: "b \<le> 2 + 1 / 2 ^ 23"
    using abs_le_D1 [OF be] abs_le_D2 [OF be] assms by linarith+
  have "\<bar>3 - b\<bar> < 4" using b_lo b_hi by (simp add: abs_less_iff)
  from round32_err4 [OF this] obtain c where c: "round32 (3 - b) = Fin c"
    and ce: "\<bar>c - (3 - b)\<bar> \<le> 1 / 2 ^ 23" by blast
  have cg: "\<bar>c - (3 - 2 * t)\<bar> \<le> 1 / 2 ^ 22"
  proof -
    have "c - (3 - 2 * t) = (c - (3 - b)) - (b - 2 * t)" by simp
    then have "\<bar>c - (3 - 2 * t)\<bar> \<le> \<bar>c - (3 - b)\<bar> + \<bar>b - 2 * t\<bar>"
      by (simp only: abs_triangle_ineq4)
    with ce be show ?thesis by simp
  qed
  have c_abs: "\<bar>c\<bar> \<le> 3 + 1 / 2 ^ 22"
    using abs_le_D1 [OF cg] abs_le_D2 [OF cg] assms by (intro abs_leI) linarith+
  have tt': "0 \<le> t * t" "t * t \<le> 1" using assms by (simp_all add: mult_le_one)
  have a_abs: "\<bar>a\<bar> \<le> 1 + 1 / 2 ^ 24"
    using abs_le_D1 [OF ae] abs_le_D2 [OF ae] tt' by (intro abs_leI) linarith+
  have "\<bar>a * c\<bar> \<le> (1 + 1 / 2 ^ 24) * (3 + 1 / 2 ^ 22)"
    unfolding abs_mult using a_abs c_abs by (intro mult_mono) simp_all
  also have "\<dots> < 4" by simp
  finally have "\<bar>a * c\<bar> < 4" .
  from round32_err4 [OF this] obtain v where v: "round32 (a * c) = Fin v"
    and ve: "\<bar>v - a * c\<bar> \<le> 1 / 2 ^ 23" by blast
  have prod: "\<bar>a * c - hermite t\<bar> \<le> 1 / 2 ^ 22 + 1 / 2 ^ 22"
  proof -
    have "a * c - hermite t = (a - t * t) * c + t * t * (c - (3 - 2 * t))"
      by (simp add: hermite_def algebra_simps)
    then have "\<bar>a * c - hermite t\<bar> \<le> \<bar>(a - t * t) * c\<bar> + \<bar>t * t * (c - (3 - 2 * t))\<bar>"
      by (simp only: abs_triangle_ineq)
    moreover have "\<bar>(a - t * t) * c\<bar> \<le> 1 / 2 ^ 24 * (3 + 1 / 2 ^ 22)"
      unfolding abs_mult using ae c_abs by (intro mult_mono) simp_all
    moreover have "(1::real) / 2 ^ 24 * (3 + 1 / 2 ^ 22) \<le> 1 / 2 ^ 22" by simp
    moreover have "\<bar>t * t * (c - (3 - 2 * t))\<bar> \<le> 1 * (1 / 2 ^ 22)"
      unfolding abs_mult [of "t * t"] using tt cg by (intro mult_mono) simp_all
    ultimately show ?thesis by linarith
  qed
  have "v - hermite t = (v - a * c) + (a * c - hermite t)" by simp
  then have "\<bar>v - hermite t\<bar> \<le> \<bar>v - a * c\<bar> + \<bar>a * c - hermite t\<bar>"
    by (simp only: abs_triangle_ineq)
  with ve prod have "\<bar>v - hermite t\<bar> \<le> 1 / 2 ^ 23 + (1 / 2 ^ 22 + 1 / 2 ^ 22)" by linarith
  also have "\<dots> \<le> 1 / 2 ^ 20" by simp
  finally have "\<bar>v - hermite t\<bar> \<le> 1 / 2 ^ 20" .
  moreover have "fmul (fmul (Fin t) (Fin t)) (fsub (Fin 3) (fmul (Fin 2) (Fin t))) = Fin v"
    by (simp add: fsub_def a b c v)
  ultimately show ?thesis by blast
qed

lemma smoothstep_quotient:
  assumes "fsub x e0 = Fin n" "fsub e1 e0 = Fin d" "d \<noteq> 0" "0 \<le> n / d" "n / d \<le> 1"
  shows "\<exists>t v. smoothstep e0 e1 x = Fin v \<and> 0 \<le> t \<and> t \<le> 1
           \<and> \<bar>t - n / d\<bar> \<le> 1 / 2 ^ 24 \<and> \<bar>v - hermite t\<bar> \<le> 1 / 2 ^ 20"
proof -
  have "\<bar>n / d\<bar> \<le> 1" using assms(4,5) by (simp add: abs_le_iff)
  from round32_err1 [OF this] obtain r where r: "round32 (n / d) = Fin r"
    and re: "\<bar>r - n / d\<bar> \<le> 1 / 2 ^ 24" by blast
  define t where "t = min (max r 0) 1"
  have t: "0 \<le> t" "t \<le> 1" by (simp_all add: t_def)
  have te: "\<bar>t - n / d\<bar> \<le> 1 / 2 ^ 24"
    using abs_le_D1 [OF re] abs_le_D2 [OF re] assms(4,5) unfolding t_def
    by (intro abs_leI) linarith+
  from hermite32_err [OF t] obtain v where
    v: "fmul (fmul (Fin t) (Fin t)) (fsub (Fin 3) (fmul (Fin 2) (Fin t))) = Fin v"
    and ve: "\<bar>v - hermite t\<bar> \<le> 1 / 2 ^ 20" by blast
  have "smoothstep e0 e1 x = Fin v"
    unfolding smoothstep_def Let_def assms(1,2)
    using assms(3) v by (simp add: r fclamp_fin t_def del: fmul.simps)
  with t te ve show ?thesis by blast
qed

lemma smoothEdge_left:
  assumes "is_f32 (Fin p)" "is_f32 (Fin x)" "0 \<le> x" "x < p"
  shows "\<exists>t v. smoothEdge (Fin x) (Fin p) = Fin v \<and> 0 \<le> t \<and> t \<le> 1
           \<and> \<bar>t - x / p\<bar> \<le> 1 / 2 ^ 24 \<and> \<bar>v - hermite t\<bar> \<le> 1 / 2 ^ 20"
proof -
  have p: "p \<noteq> 0" "0 \<le> x / p" "x / p \<le> 1" using assms(3,4) by simp_all
  from smoothstep_quotient [OF float_minus_zero [OF assms(2)] float_minus_zero [OF assms(1)] p]
  show ?thesis using assms(4) by (simp add: smoothEdge_def Let_def)
qed

lemma smoothEdge_right:
  assumes "fsub (Fin 1) (Fin p) = Fin e1" "1 / 2 \<le> e1" "e1 < 1" "p < 1 / 2"
    and "is_f32 (Fin x)" "e1 < x" "x \<le> 1"
  shows "\<exists>t v. smoothEdge (Fin x) (Fin p) = Fin v \<and> 0 \<le> t \<and> t \<le> 1
           \<and> \<bar>t - (1 - x) / (1 - e1)\<bar> \<le> 1 / 2 ^ 24 \<and> \<bar>v - hermite t\<bar> \<le> 1 / 2 ^ 20"
proof -
  have fe: "is_f32 (Fin e1)"
    using is_f32_round32 [of "1 - p"] assms(1) by (simp add: fsub_def)
  have n: "fsub (Fin x) (Fin 1) = Fin (x - 1)"
    using assms by (intro float_minus_one) simp_all
  have d: "fsub (Fin e1) (Fin 1) = Fin (e1 - 1)"
    using assms fe by (intro float_minus_one) simp_all
  have q: "(x - 1) / (e1 - 1) = (1 - x) / (1 - e1)"
    using assms(3) by (simp add: field_simps)
  have c: "e1 - 1 \<noteq> 0" "0 \<le> (x - 1) / (e1 - 1)" "(x - 1) / (e1 - 1) \<le> 1"
    unfolding q using assms(3,6,7) by simp_all
  have b: "\<not> flt (Fin x) (Fin p)" "flt (Fin e1) (Fin x)" using assms by simp_all
  from smoothstep_quotient [OF n d c]
  show ?thesis unfolding q using b by (simp add: smoothEdge_def Let_def assms(1))
qed

lemma smoothEdge_middle:
  assumes "fsub (Fin 1) (Fin p) = Fin e1" "p \<le> x" "x \<le> e1"
  shows "smoothEdge (Fin x) (Fin p) = Fin 1"
  using assms by (simp add: smoothEdge_def Let_def)

lemma approx_order:
  fixes a b s t :: real
  assumes "0 \<le> s" "s \<le> 1" "0 \<le> t" "t \<le> 1"
    and "\<bar>s - u\<bar> \<le> 1 / 2 ^ 24" "\<bar>t - w\<bar> \<le> 1 / 2 ^ 24" "u \<le> w"
    and "\<bar>a - hermite s\<bar> \<le> 1 / 2 ^ 20" "\<bar>b - hermite t\<bar> \<le> 1 / 2 ^ 20"
  shows "a \<le> b + 1 / 2 ^ 18"
proof -
  have n: "(1::real) / 2 ^ 24 + 1 / 2 ^ 24 = 1 / 2 ^ 23"
    "(1::real) / 2 ^ 20 + 1 / 2 ^ 22 + 1 / 2 ^ 20 \<le> 1 / 2 ^ 18" by simp_all
  have "s \<le> t + 1 / 2 ^ 23"
    using abs_le_D1 [OF assms(5)] abs_le_D2 [OF assms(6)] assms(7) n(1) by linarith
  from hermite_near [OF assms(1-4) this]
  have "hermite s \<le> hermite t + 1 / 2 ^ 22" by simp
  with abs_le_D1 [OF assms(8)] abs_le_D2 [OF assms(9)] n(2) show ?thesis by linarith
qed

lemma below_one:
  fixes a s :: real
  assumes "0 \<le> s" "s \<le> 1" "\<bar>a - hermite s\<bar> \<le> 1 / 2 ^ 20"
  shows "a \<le> 1 + 1 / 2 ^ 18"
proof -
  have "(1::real) / 2 ^ 20 \<le> 1 / 2 ^ 18" by simp
  with abs_le_D1 [OF assms(3)] hermite_le_one [OF assms(1,2)] show ?thesis by linarith
qed

lemma smoothEdge_increasing:
  assumes "1 / 2 ^ 25 < p" "p < 1 / 2" "is_f32 (Fin p)"
    and "is_f32 (Fin x)" "is_f32 (Fin y)" "0 \<le> x" "x \<le> y" "y \<le> 1 / 2"
  shows "\<exists>a b. smoothEdge (Fin x) (Fin p) = Fin a \<and> smoothEdge (Fin y) (Fin p) = Fin b
           \<and> a \<le> b + 1 / 2 ^ 18"
proof -
  from one_minus_padding [OF assms(1,2)] obtain e1 where
    e1: "fsub (Fin 1) (Fin p) = Fin e1" "1 / 2 \<le> e1" "e1 \<le> 1 - 1 / 2 ^ 24" by blast
  have p0: "0 < p" using assms(1) by (rule less_trans [rotated]) simp
  consider "y < p" | "x < p" "p \<le> y" | "p \<le> x" by linarith
  then show ?thesis
  proof cases
    case 1
    then have xp: "x < p" using assms(7) by simp
    from smoothEdge_left [OF assms(3,4,6) xp] obtain s a where
      a: "smoothEdge (Fin x) (Fin p) = Fin a" "0 \<le> s" "s \<le> 1"
         "\<bar>s - x / p\<bar> \<le> 1 / 2 ^ 24" "\<bar>a - hermite s\<bar> \<le> 1 / 2 ^ 20" by blast
    have y0: "0 \<le> y" using assms(6,7) by simp
    from smoothEdge_left [OF assms(3,5) y0 1] obtain t b where
      b: "smoothEdge (Fin y) (Fin p) = Fin b" "0 \<le> t" "t \<le> 1"
         "\<bar>t - y / p\<bar> \<le> 1 / 2 ^ 24" "\<bar>b - hermite t\<bar> \<le> 1 / 2 ^ 20" by blast
    have "x / p \<le> y / p" using assms(7) p0 by (simp add: divide_right_mono)
    from approx_order [OF a(2,3) b(2,3) a(4) b(4) this a(5) b(5)] a(1) b(1)
    show ?thesis by blast
  next
    case 2
    from smoothEdge_left [OF assms(3,4,6) 2(1)] obtain s a where
      a: "smoothEdge (Fin x) (Fin p) = Fin a" "0 \<le> s" "s \<le> 1"
         "\<bar>a - hermite s\<bar> \<le> 1 / 2 ^ 20" by blast
    have "y \<le> e1" using assms(8) e1(2) by simp
    from smoothEdge_middle [OF e1(1) 2(2) this] below_one [OF a(2,3,4)] a(1)
    show ?thesis by simp
  next
    case 3
    have "x \<le> e1" "y \<le> e1" "p \<le> y" using assms(7,8) e1(2) 3 by simp_all
    with smoothEdge_middle [OF e1(1) 3] smoothEdge_middle [OF e1(1), of y]
    show ?thesis by simp
  qed
qed

lemma smoothEdge_decreasing:
  assumes "1 / 2 ^ 25 < p" "p < 1 / 2"
    and "is_f32 (Fin x)" "is_f32 (Fin y)" "1 / 2 \<le> x" "x \<le> y" "y \<le> 1"
  shows "\<exists>a b. smoothEdge (Fin x) (Fin p) = Fin a \<and> smoothEdge (Fin y) (Fin p) = Fin b
           \<and> b \<le> a + 1 / 2 ^ 18"
proof -
  from one_minus_padding [OF assms(1,2)] obtain e1 where
    e1: "fsub (Fin 1) (Fin p) = Fin e1" "1 / 2 \<le> e1" "e1 \<le> 1 - 1 / 2 ^ 24" by blast
  have e1': "e1 < 1" using e1(3) by (rule le_less_trans) simp
  have px: "p \<le> x" "p \<le> y" using assms(2,5,6) by simp_all
  consider "y \<le> e1" | "x \<le> e1" "e1 < y" | "e1 < x" by linarith
  then show ?thesis
  proof cases
    case 1
    then have "x \<le> e1" using assms(6) by simp
    with smoothEdge_middle [OF e1(1) px(1)] smoothEdge_middle [OF e1(1) px(2) 1]
    show ?thesis by simp
  next
    case 2
    from smoothEdge_right [OF e1(1,2) e1' assms(2) assms(4) 2(2) assms(7)] obtain t b where
      b: "smoothEdge (Fin y) (Fin p) = Fin b" "0 \<le> t" "t \<le> 1"
         "\<bar>b - hermite t\<bar> \<le> 1 / 2 ^ 20" by blast
    from smoothEdge_middle [OF e1(1) px(1) 2(1)] below_one [OF b(2,3,4)] b(1)
    show ?thesis by simp
  next
    case 3
    have x1: "x \<le> 1" and ey: "e1 < y" using assms(6,7) 3 by simp_all
    from smoothEdge_right [OF e1(1,2) e1' assms(2) assms(3) 3 x1] obtain s a where
      a: "smoothEdge (Fin x) (Fin p) = Fin a" "0 \<le> s" "s \<le> 1"
         "\<bar>s - (1 - x) / (1 - e1)\<bar> \<le> 1 / 2 ^ 24" "\<bar>a - hermite s\<bar> \<le> 1 / 2 ^ 20" by blast
    from smoothEdge_right [OF e1(1,2) e1' assms(2) assms(4) ey assms(7)] obtain t b where
      b: "smoothEdge (Fin y) (Fin p) = Fin b" "0 \<le> t" "t \<le> 1"
         "\<bar>t - (1 - y) / (1 - e1)\<bar> \<le> 1 / 2 ^ 24" "\<bar>b - hermite t\<bar> \<le> 1 / 2 ^ 20" by blast
    have "(1 - y) / (1 - e1) \<le> (1 - x) / (1 - e1)"
      using assms(6) e1' by (simp add: divide_right_mono)
    from approx_order [OF b(2,3) a(2,3) b(4) a(4) this b(5) a(5)] a(1) b(1)
    show ?thesis by blast
  qed
qed

text \<open>
  Claim C3, as stated, fails. For the padding \<open>2 ^ -25\<close> the shader computes
  \<open>1.0 - edge = 1\<close>, so \<open>smoothEdge\<close> is 1 at 1, not 0. For the padding 0.1 of the
  component (the binary32 number \<open>13421773 / 134217728\<close>) \<open>smoothEdge\<close> falls between two
  neighbouring binary32 numbers of \<open>[0, padding]\<close>.
\<close>

theorem edge_fade_binary32_counterexample:
  "(0::real) < 1 / 2 ^ 25 \<and> (1 / 2 ^ 25 :: real) < 1 / 2 \<and> is_f32 (Fin (1 / 2 ^ 25))
   \<and> smoothEdge (Fin 1) (Fin (1 / 2 ^ 25)) = Fin 1
   \<and> is_f32 (Fin (13421773 / 134217728))
   \<and> is_f32 (Fin (11229421 / 1073741824)) \<and> is_f32 (Fin (5614711 / 536870912))
   \<and> (11229421 / 1073741824 :: real) < 5614711 / 536870912
   \<and> (5614711 / 536870912 :: real) < 13421773 / 134217728
   \<and> smoothEdge (Fin (11229421 / 1073741824)) (Fin (13421773 / 134217728))
       = Fin (512117 / 16777216)
   \<and> smoothEdge (Fin (5614711 / 536870912)) (Fin (13421773 / 134217728))
       = Fin (16387743 / 536870912)
   \<and> (16387743 / 536870912 :: real) < 512117 / 16777216"
  by (simp add: smoothEdge_def smoothstep_def fclamp_def fmax_def fmin_def is_f32_def
      fsub_def f32_eval)

text \<open>
  Claim C3, amended. For a binary32 padding \<open>p\<close> with \<open>2 ^ -25 < p < 1/2\<close>,
  \<open>smoothEdge\<close> is 0 at 0 and at 1 and is 1 at 1/2; it is 1 at every \<open>x\<close> from \<open>p\<close> to the
  computed \<open>1.0 - p\<close>; and on the binary32 numbers it increases over \<open>[0, 1/2]\<close> and
  decreases over \<open>[1/2, 1]\<close> up to rounding: from one number to a larger one the value
  never moves against the direction by more than \<open>2 ^ -18\<close>.
\<close>

theorem edge_fade_binary32:
  assumes "1 / 2 ^ 25 < p" and "p < 1 / 2" and "is_f32 (Fin p)"
  shows "smoothEdge (Fin 0) (Fin p) = Fin 0
    \<and> smoothEdge (Fin 1) (Fin p) = Fin 0
    \<and> smoothEdge (Fin (1 / 2)) (Fin p) = Fin 1
    \<and> (\<forall>x. \<not> flt (Fin x) (Fin p) \<and> \<not> flt (fsub (Fin 1) (Fin p)) (Fin x)
          \<longrightarrow> smoothEdge (Fin x) (Fin p) = Fin 1)
    \<and> (\<forall>x y. is_f32 (Fin x) \<and> is_f32 (Fin y) \<and> 0 \<le> x \<and> x \<le> y \<and> y \<le> 1 / 2
          \<longrightarrow> (\<exists>a b. smoothEdge (Fin x) (Fin p) = Fin a
                   \<and> smoothEdge (Fin y) (Fin p) = Fin b \<and> a \<le> b + 1 / 2 ^ 18))
    \<and> (\<forall>x y. is_f32 (Fin x) \<and> is_f32 (Fin y) \<and> 1 / 2 \<le> x \<and> x \<le> y \<and> y \<le> 1
          \<longrightarrow> (\<exists>a b. smoothEdge (Fin x) (Fin p) = Fin a
                   \<and> smoothEdge (Fin y) (Fin p) = Fin b \<and> b \<le> a + 1 / 2 ^ 18))"
proof -
  note s = smoothEdge_shape [OF assms(1,2)]
  have i: "\<exists>a b. smoothEdge (Fin x) (Fin p) = Fin a
             \<and> smoothEdge (Fin y) (Fin p) = Fin b \<and> a \<le> b + 1 / 2 ^ 18"
    if "is_f32 (Fin x) \<and> is_f32 (Fin y) \<and> 0 \<le> x \<and> x \<le> y \<and> y \<le> 1 / 2" for x y
    using that assms by (intro smoothEdge_increasing) simp_all
  have d: "\<exists>a b. smoothEdge (Fin x) (Fin p) = Fin a
             \<and> smoothEdge (Fin y) (Fin p) = Fin b \<and> b \<le> a + 1 / 2 ^ 18"
    if "is_f32 (Fin x) \<and> is_f32 (Fin y) \<and> 1 / 2 \<le> x \<and> x \<le> y \<and> y \<le> 1" for x y
    using that assms by (intro smoothEdge_decreasing) simp_all
  from s i d show ?thesis by blast
qed

theorem edge_fade_binary32_witness:
  "(1 / 2 ^ 25 :: real) < 13421773 / 134217728 \<and> (13421773 / 134217728 :: real) < 1 / 2
   \<and> is_f32 (Fin (13421773 / 134217728))
   \<and> smoothEdge (Fin 0) (Fin (13421773 / 134217728)) = Fin 0
   \<and> smoothEdge (Fin 1) (Fin (13421773 / 134217728)) = Fin 0
   \<and> smoothEdge (Fin (1 / 2)) (Fin (13421773 / 134217728)) = Fin 1
   \<and> is_f32 (Fin (11229421 / 1073741824)) \<and> is_f32 (Fin (5614711 / 536870912))
   \<and> (0::real) \<le> 11229421 / 1073741824
   \<and> (11229421 / 1073741824 :: real) \<le> 5614711 / 536870912
   \<and> (5614711 / 536870912 :: real) \<le> 1 / 2
   \<and> smoothEdge (Fin (11229421 / 1073741824)) (Fin (13421773 / 134217728))
       = Fin (512117 / 16777216)
   \<and> smoothEdge (Fin (5614711 / 536870912)) (Fin (13421773 / 134217728))
       = Fin (16387743 / 536870912)
   \<and> (512117 / 16777216 :: real) \<le> 16387743 / 536870912 + 1 / 2 ^ 18"
proof -
  have p: "(1 / 2 ^ 25 :: real) < 13421773 / 134217728"
    "(13421773 / 134217728 :: real) < 1 / 2" "is_f32 (Fin (13421773 / 134217728))"
    by (simp_all add: is_f32_def f32_eval)
  have xy: "is_f32 (Fin (11229421 / 1073741824)) \<and> is_f32 (Fin (5614711 / 536870912))
      \<and> (0::real) \<le> 11229421 / 1073741824
      \<and> (11229421 / 1073741824 :: real) \<le> 5614711 / 536870912
      \<and> (5614711 / 536870912 :: real) \<le> 1 / 2"
    by (simp add: is_f32_def f32_eval)
  have v: "smoothEdge (Fin (11229421 / 1073741824)) (Fin (13421773 / 134217728))
       = Fin (512117 / 16777216)"
    "smoothEdge (Fin (5614711 / 536870912)) (Fin (13421773 / 134217728))
       = Fin (16387743 / 536870912)"
    by (simp_all add: smoothEdge_def smoothstep_def fclamp_def fmax_def fmin_def
        fsub_def f32_eval)
  note T = edge_fade_binary32 [OF p]
  from T have e: "smoothEdge (Fin 0) (Fin (13421773 / 134217728)) = Fin 0
      \<and> smoothEdge (Fin 1) (Fin (13421773 / 134217728)) = Fin 0
      \<and> smoothEdge (Fin (1 / 2)) (Fin (13421773 / 134217728)) = Fin 1"
    by blast
  from T have "\<forall>x y. is_f32 (Fin x) \<and> is_f32 (Fin y) \<and> 0 \<le> x \<and> x \<le> y \<and> y \<le> 1 / 2
          \<longrightarrow> (\<exists>a b. smoothEdge (Fin x) (Fin (13421773 / 134217728)) = Fin a
                   \<and> smoothEdge (Fin y) (Fin (13421773 / 134217728)) = Fin b
                   \<and> a \<le> b + 1 / 2 ^ 18)"
    by blast
  from this [rule_format, OF xy] have m:
    "(512117 / 16777216 :: real) \<le> 16387743 / 536870912 + 1 / 2 ^ 18"
    unfolding v by simp
  from p xy v e m show ?thesis by blast
qed

subsection \<open>Fractal glass\<close>





subsection \<open>Parallax\<close>

lemma fmul_zero_fin: "fmul (Fin 0) (Fin a) = Fin 0"
  by (simp add: round32_0)

text \<open>
  Claim C7, as stated, fails. With the pointer at the midpoint, \<open>uDistortionMultiplier =
  3e38\<close> and \<open>uGlassStrength = 100\<close>, at \<open>vUv = (1/2, 1/2)\<close> the product
  \<open>abs(distortionFactor) * uDistortionMultiplier\<close> overflows to infinity, zero times
  infinity is NaN, and the parallax offset is (NaN, 0).
\<close>

theorem parallax_counterexample:
  "fvec_x (fvec2_div (uMouse32 overflow_uniforms32) (uResolution32 overflow_uniforms32)) = Fin (1 / 2)
   \<and> main_parallaxOffset overflow_uniforms32 (FVec2 (Fin (1 / 2)) (Fin (1 / 2))) = FVec2 NaN (Fin 0)
   \<and> main_uv overflow_uniforms32 (FVec2 (Fin (1 / 2)) (Fin (1 / 2))) = FVec2 NaN (Fin (1 / 2))
   \<and> main_distorted overflow_uniforms32 (FVec2 (Fin (1 / 2)) (Fin (1 / 2)))
       = FVec2 (Fin (4065479 / 2097152)) (Fin (1 / 2))"
proof -
  have n: "fvec_x (fvec2_div (uMouse32 overflow_uniforms32) (uResolution32 overflow_uniforms32)) = Fin (1 / 2)"
    by (simp add: overflow_uniforms32_eq fvec2_div_def f32_eval)
  have p: "main_parallaxOffset overflow_uniforms32 (FVec2 (Fin (1 / 2)) (Fin (1 / 2))) = FVec2 NaN (Fin 0)"
    unfolding main_parallaxOffset_def Let_def overflow_uniforms32_edge overflow_uniforms32_distorted n
    by (simp add: overflow_uniforms32_eq fvec2_scale_def fsign_def fsub_def f32_eval)
  show ?thesis
    unfolding main_uv_def p overflow_uniforms32_distorted using n
    by (simp add: fvec2_add_def f32_eval)
qed

text \<open>
  Claim C7, amended. When the normalised pointer \<open>uMouse / uResolution\<close> has the x
  coordinate 1/2, \<open>uParallaxStrength\<close> is a finite number, and the amplification
  \<open>1.0 + abs(distortionFactor) * uDistortionMultiplier\<close> and the edge fade are finite (no
  overflow and no NaN), the parallax offset is (0, 0) and, \<open>vUv.y\<close> being a binary32
  number, \<open>uv\<close> after the parallax is the distorted \<open>uv\<close>.
\<close>

theorem parallax_at_midpoint32:
  assumes "fvec_x (fvec2_div (uMouse32 U) (uResolution32 U)) = Fin 0.5"
    and "uParallaxStrength32 U = Fin s"
    and "fadd (Fin 1.0)
           (fmul (fabs (fsub (fvec_x (main_distorted U vUv)) (fvec_x vUv)))
                 (uDistortionMultiplier32 U)) = Fin a"
    and "main_edgeFactor U vUv = Fin e"
    and "is_f32 (fvec_y vUv)"
  shows "main_parallaxOffset U vUv = FVec2 (Fin 0) (Fin 0)
    \<and> main_uv U vUv = main_distorted U vUv"
proof -
  have n: "fvec_x (fvec2_div (uMouse32 U) (uResolution32 U)) = Fin (1 / 2)"
    using assms(1) by simp
  have a: "fadd (Fin 1)
           (fmul (fabs (fsub (fvec_x (main_distorted U vUv)) (fvec_x vUv)))
                 (uDistortionMultiplier32 U)) = Fin a"
    using assms(3) by simp
  have p: "main_parallaxOffset U vUv = FVec2 (Fin 0) (Fin 0)"
  proof -
    have z: "fsub (Fin (1 / 2)) (Fin (1 / 2)) = Fin 0" by (simp add: fsub_def round32_0)
    show ?thesis
      unfolding main_parallaxOffset_def Let_def n assms(2) assms(4)
      by (simp add: a z fvec2_scale_def fsign_def round32_0)
  qed
  have x: "is_f32 (fvec_x (main_distorted U vUv))"
    by (simp add: main_distorted_def Let_def mix_def is_f32_fadd)
  have y: "fvec_y (main_distorted U vUv) = fvec_y vUv"
    by (simp add: main_distorted_def Let_def)
  have "main_uv U vUv = main_distorted U vUv"
    unfolding main_uv_def p fvec2_add_def
    using x y assms(5) by (cases "main_distorted U vUv") (simp add: fadd_zero_right)
  with p show ?thesis by simp
qed

theorem parallax_at_midpoint32_witness:
  "fvec_x (fvec2_div (uMouse32 default_uniforms32) (uResolution32 default_uniforms32)) = Fin 0.5
   \<and> uParallaxStrength32 default_uniforms32 = Fin (13421773 / 134217728)
   \<and> fadd (Fin 1.0)
        (fmul (fabs (fsub (fvec_x (main_distorted default_uniforms32 (FVec2 (Fin (1 / 2)) (Fin (1 / 2)))))
                      (fvec_x (FVec2 (Fin (1 / 2)) (Fin (1 / 2))))))
              (uDistortionMultiplier32 default_uniforms32)) = Fin (675133 / 524288)
   \<and> main_edgeFactor default_uniforms32 (FVec2 (Fin (1 / 2)) (Fin (1 / 2))) = Fin 1
   \<and> is_f32 (fvec_y (FVec2 (Fin (1 / 2)) (Fin (1 / 2))))
   \<and> main_parallaxOffset default_uniforms32 (FVec2 (Fin (1 / 2)) (Fin (1 / 2))) = FVec2 (Fin 0) (Fin 0)
   \<and> main_uv default_uniforms32 (FVec2 (Fin (1 / 2)) (Fin (1 / 2)))
       = FVec2 (Fin (554457 / 1048576)) (Fin (1 / 2))"
proof -
  have n: "fvec_x (fvec2_div (uMouse32 default_uniforms32) (uResolution32 default_uniforms32)) = Fin 0.5"
    by (simp add: default_uniforms32_eq fvec2_div_def f32_eval)
  have s: "uParallaxStrength32 default_uniforms32 = Fin (13421773 / 134217728)" by (simp add: default_uniforms32_eq)
  have a: "fadd (Fin 1.0)
        (fmul (fabs (fsub (fvec_x (main_distorted default_uniforms32 (FVec2 (Fin (1 / 2)) (Fin (1 / 2)))))
                      (fvec_x (FVec2 (Fin (1 / 2)) (Fin (1 / 2))))))
              (uDistortionMultiplier32 default_uniforms32)) = Fin (675133 / 524288)"
    unfolding default_uniforms32_distorted by (simp add: default_uniforms32_eq fsub_def f32_eval)
  have y: "is_f32 (fvec_y (FVec2 (Fin (1 / 2)) (Fin (1 / 2))))"
    by (simp add: is_f32_def f32_eval)
  from parallax_at_midpoint32 [OF n s a default_uniforms32_edge y]
  show ?thesis using n s a default_uniforms32_edge y by (simp add: default_uniforms32_distorted)
qed

subsection \<open>The sample coordinate\<close>

lemma fclamp_unit: "\<exists>r. fclamp x (Fin 0) (Fin 1) = Fin r \<and> 0 \<le> r \<and> r \<le> 1"
  by (cases x) (auto simp: fclamp_def fmax_def fmin_def)

text \<open>
  Claim C8. The coordinate that \<open>main\<close> hands to \<open>texture2D\<close> is the clamped cover
  coordinate, and both of its components are numbers between 0 and 1, for every \<open>vUv\<close>
  and every value of the uniforms, also where the cover coordinate is an infinity or
  NaN.
\<close>

theorem sample_coordinate_clamped:
  "main texture2D U vUv = texture2D (uTexture32 U) (main_coverUV U vUv)
   \<and> main_coverUV U vUv
       = fvec2_clamp (getCoverUV U (main_uv U vUv) (uTextureSize32 U)) (Fin 0) (Fin 1)
   \<and> (\<exists>a b. main_coverUV U vUv = FVec2 (Fin a) (Fin b)
         \<and> 0 \<le> a \<and> a \<le> 1 \<and> 0 \<le> b \<and> b \<le> 1)"
proof -
  obtain a where a: "fclamp (fvec_x (getCoverUV U (main_uv U vUv) (uTextureSize32 U)))
      (Fin 0) (Fin 1) = Fin a" "0 \<le> a" "a \<le> 1"
    using fclamp_unit by blast
  obtain b where b: "fclamp (fvec_y (getCoverUV U (main_uv U vUv) (uTextureSize32 U)))
      (Fin 0) (Fin 1) = Fin b" "0 \<le> b" "b \<le> 1"
    using fclamp_unit by blast
  show ?thesis
    using a b by (simp add: main_def main_coverUV_def fvec2_clamp_def Let_def)
qed

section \<open>Properties of the component\<close>

lemmas host_defs =
  addEventListener_def removeEventListener_def requestAnimationFrame_def
  cancelAnimationFrame_def appendChild_def new_resource_def dispose_def call_def

lemmas handler_defs = onMouseMove_def onResize_def animate_def onTextureLoad_def

subsection \<open>What the handlers leave alone\<close>

lemma animate_fields:
  "canvasRef (animate s) = canvasRef s" "container (animate s) = container s"
  "listeners (animate s) = listeners s" "allocated (animate s) = allocated s"
  "frames (animate s) = insert (nextFrameId s) (frames s)"
  "animationId (animate s) = nextFrameId s"
  "uTextureSize (uniforms (animate s)) = uTextureSize (uniforms s)"
  by (simp_all add: animate_def host_defs Let_def)

lemma onResize_fields:
  "canvasRef (onResize s) = canvasRef s" "container (onResize s) = container s"
  "listeners (onResize s) = listeners s" "allocated (onResize s) = allocated s"
  "frames (onResize s) = frames s" "animationId (onResize s) = animationId s"
  "uTextureSize (uniforms (onResize s)) = uTextureSize (uniforms s)"
  by (simp_all add: onResize_def host_defs Let_def)

subsection \<open>From mount to cleanup\<close>

lemma mount_example: "mount example_page = Some example_mounted"
  by (auto simp add: example_mounted_def mount_def example_page_def host_defs animate_def
      new_uniforms_def Let_def)

lemma mount_mounted:
  assumes "mount s0 = Some s1"
  shows "mounted s0 s1"
proof -
  from assms obtain kids where k: "container s0 = Some kids"
    by (auto simp: mount_def split: option.splits)
  from assms k show ?thesis
    by (auto simp: mount_def mounted_def animate_fields host_defs Let_def)
qed

lemma dispatch_mounted:
  assumes "mounted s0 s"
  shows "mounted s0 (dispatch e s)"
proof (cases e)
  case (MouseMove ev)
  with assms show ?thesis
    by (simp add: mounted_def onMouseMove_def split: option.splits)
next
  case (Resize w h)
  with assms show ?thesis
    by (simp add: mounted_def onResize_fields Let_def split: option.splits)
next
  case Frame
  with assms show ?thesis
    by (simp add: mounted_def animate_fields split: option.splits)
next
  case (TextureLoaded w h)
  with assms show ?thesis
    by (simp add: mounted_def onTextureLoad_def split: option.splits)
next
  case TextureError
  with assms show ?thesis by simp
qed

lemma run_mounted: "mounted s0 s \<Longrightarrow> mounted s0 (run evs s)"
  by (induction evs arbitrary: s) (simp_all add: dispatch_mounted)

lemma cleanup_mounted:
  assumes "mounted s0 s"
  shows "\<exists>s'. cleanup s = Inr s'
    \<and> calls s' = calls s @
        [RemoveEventListener ''mousemove'' OnMouseMove, RemoveEventListener ''resize'' OnResize,
         CancelAnimationFrame (animationId s), RemoveChild Canvas,
         Dispose Geometry, Dispose Material, Dispose Texture, Dispose Renderer]
    \<and> listeners s' = listeners s0 - {(''mousemove'', OnMouseMove), (''resize'', OnResize)}
    \<and> frames s' = {}
    \<and> container s' = map_option (\<lambda>kids. kids - {Canvas}) (container s0)
    \<and> allocated s' = {}"
proof -
  from assms obtain kids where k: "container s0 = Some kids"
    by (auto simp: mounted_def split: option.splits)
  from assms k show ?thesis
    by (auto simp: mounted_def cleanup_def removeChild_def host_defs Let_def)
qed

text \<open>
  Claim C2. Let the effect run in \<open>s0\<close> and let any events follow. The cleanup then
  completes, and the calls it makes are exactly, in this order: remove the
  \<open>mousemove\<close> listener, remove the \<open>resize\<close> listener, cancel the frame request
  \<open>animationId\<close>, remove the canvas from the container, dispose the geometry, the
  material, the texture and the renderer. Afterwards the listeners of the window are
  those of \<open>s0\<close> without the two handlers, no frame request of the component is
  pending, the canvas is no child of the container, and nothing the component
  constructed is left undisposed.
\<close>

theorem cleanup_order:
  assumes "mount s0 = Some s1" and "s = run evs s1"
  shows "\<exists>s'. cleanup s = Inr s'
    \<and> calls s' = calls s @
        [RemoveEventListener ''mousemove'' OnMouseMove, RemoveEventListener ''resize'' OnResize,
         CancelAnimationFrame (animationId s), RemoveChild Canvas,
         Dispose Geometry, Dispose Material, Dispose Texture, Dispose Renderer]
    \<and> listeners s' = listeners s0 - {(''mousemove'', OnMouseMove), (''resize'', OnResize)}
    \<and> frames s' = {}
    \<and> container s' = map_option (\<lambda>kids. kids - {Canvas}) (container s0)
    \<and> allocated s' = {}"
  unfolding assms(2)
  by (rule cleanup_mounted, rule run_mounted, rule mount_mounted, rule assms(1))

theorem cleanup_order_witness:
  "mount example_page = Some example_mounted
   \<and> (case cleanup (run [MouseMove \<lparr>clientX = 3, clientY = 4\<rparr>, Frame, Resize 800 600,
                          TextureLoaded 800 600] example_mounted) of
        Inl e \<Rightarrow> False
      | Inr s' \<Rightarrow>
          calls s' =
            [SetSize 1600 900, SetPixelRatio 2, AppendChild Canvas,
             AddEventListener ''mousemove'' OnMouseMove, AddEventListener ''resize'' OnResize,
             RequestAnimationFrame 7, Render,
             RequestAnimationFrame 8, Render,
             UpdateProjectionMatrix (4 / 3), SetSize 800 600,
             RemoveEventListener ''mousemove'' OnMouseMove,
             RemoveEventListener ''resize'' OnResize,
             CancelAnimationFrame 8, RemoveChild Canvas,
             Dispose Geometry, Dispose Material, Dispose Texture, Dispose Renderer]
          \<and> listeners s' = {(''click'', Foreign 0)}
          \<and> frames s' = {}
          \<and> container s' = Some {Node 0}
          \<and> allocated s' = {})"
proof -
  let ?evs = "[MouseMove \<lparr>clientX = 3, clientY = 4\<rparr>, Frame, Resize 800 600,
               TextureLoaded 800 600]"
  have c: "calls (run ?evs example_mounted) =
            [SetSize 1600 900, SetPixelRatio 2, AppendChild Canvas,
             AddEventListener ''mousemove'' OnMouseMove, AddEventListener ''resize'' OnResize,
             RequestAnimationFrame 7, Render,
             RequestAnimationFrame 8, Render,
             UpdateProjectionMatrix (4 / 3), SetSize 800 600]"
    and a: "animationId (run ?evs example_mounted) = 8"
    by (simp_all add: example_mounted_def handler_defs host_defs Let_def)
  have l: "listeners example_page - {(''mousemove'', OnMouseMove), (''resize'', OnResize)}
       = {(''click'', Foreign 0)}"
    and k: "map_option (\<lambda>kids. kids - {Canvas}) (container example_page) = Some {Node 0}"
    by (simp_all add: example_page_def)
  from cleanup_order [OF mount_example refl, of ?evs]
  obtain s' where "cleanup (run ?evs example_mounted) = Inr s'"
    and "calls s' = calls (run ?evs example_mounted) @
        [RemoveEventListener ''mousemove'' OnMouseMove, RemoveEventListener ''resize'' OnResize,
         CancelAnimationFrame (animationId (run ?evs example_mounted)), RemoveChild Canvas,
         Dispose Geometry, Dispose Material, Dispose Texture, Dispose Renderer]"
    and "listeners s'
         = listeners example_page - {(''mousemove'', OnMouseMove), (''resize'', OnResize)}"
    and "frames s' = {}"
    and "container s' = map_option (\<lambda>kids. kids - {Canvas}) (container example_page)"
    and "allocated s' = {}"
    by blast
  then show ?thesis
    unfolding c a l k using mount_example by simp
qed

subsection \<open>A texture that does not load\<close>

lemma run_no_load:
  "\<not> list_ex is_TextureLoaded evs \<Longrightarrow>
     uTextureSize (uniforms (run evs s)) = uTextureSize (uniforms s)"
proof (induction evs arbitrary: s)
  case Nil
  then show ?case by simp
next
  case (Cons e evs)
  then have "\<not> is_TextureLoaded e" and r: "\<not> list_ex is_TextureLoaded evs" by simp_all
  then have "uTextureSize (uniforms (dispatch e s)) = uTextureSize (uniforms s)"
    by (cases e) (simp_all add: onMouseMove_def onResize_fields animate_fields Let_def)
  with Cons.IH [OF r] show ?case by simp
qed

lemma mount_textureSize:
  "mount s0 = Some s1 \<Longrightarrow> uTextureSize (uniforms s1) = Vec2 1 1"
  by (auto simp: mount_def animate_fields host_defs new_uniforms_def Let_def
      split: option.splits)

lemma unit_cover_axis:
  fixes w m :: nat
  assumes "1 \<le> w" "w \<le> m" "m \<le> 2 ^ 24"
  shows "fdiv (fsub (fmul (Fin 0) (Fin (real w)))
                 (fmul (fsub (Fin (real w)) (fmul (Fin 1) (Fin (real m)))) (Fin (1 / 2))))
              (fmul (Fin 1) (Fin (real m)))
         = round32 ((real m - real w) / 2 / real m)"
proof -
  have m: "round32 (real m) = Fin (real m)" using assms by (intro round32_nat) simp
  have d: "real w - real m = of_int (int w - int m)" by simp
  have k: "\<bar>int w - int m\<bar> \<le> 2 ^ 24" using assms by simp
  have s: "round32 (real w - real m) = Fin (real w - real m)"
    unfolding d by (rule round32_int [OF k])
  have h: "round32 ((real w - real m) / 2) = Fin ((real w - real m) / 2)"
    unfolding d by (rule round32_half_int [OF k])
  have k': "\<bar>int m - int w\<bar> \<le> 2 ^ 24" using assms by simp
  have n: "round32 ((real m - real w) / 2) = Fin ((real m - real w) / 2)"
    using round32_half_int [OF k'] by simp
  have "- ((real w - real m) / 2) = (real m - real w) / 2" by (simp add: field_simps)
  then have n': "round32 (- ((real w - real m) / 2)) = Fin ((real m - real w) / 2)"
    using n by (simp only:)
  have m0: "real m \<noteq> 0" using assms by simp
  show ?thesis
    using m0 by (simp add: fsub_def m s h n' round32_0)
qed

lemma unit_cover_moves:
  fixes w m :: nat
  assumes "1 \<le> w" "w < m" "m \<le> 2 ^ 24"
  shows "\<exists>r. round32 ((real m - real w) / 2 / real m) = Fin r \<and> 0 < r"
proof (rule round32_pos)
  have m: "0 < real m" "real m \<le> 2 ^ 24" using assms
    by (simp_all add: of_nat_le_iff [of m "2 ^ 24", where 'a = real, simplified])
  have "real (Suc w) \<le> real m" using assms(2) by (simp only: of_nat_le_iff Suc_le_eq)
  then have "1 \<le> real m - real w" by simp
  then have "1 / 2 \<le> (real m - real w) / 2" by simp
  then have "1 / 2 / 2 ^ 24 \<le> (real m - real w) / 2 / real m"
    using m by (intro frac_le) simp_all
  then show "1 / 2 ^ 25 \<le> (real m - real w) / 2 / real m" by simp
  have "real m - real w \<le> real m" by simp
  then show "(real m - real w) / 2 / real m \<le> 1" using m by (simp add: field_simps)
qed

lemma unit_cover_not_identity:
  fixes w h :: nat
  assumes "1 \<le> w" "w \<le> 2 ^ 24" "1 \<le> h" "h \<le> 2 ^ 24" "w \<noteq> h"
  shows "getCoverUV (with_resolution U (real w) (real h)) (FVec2 (Fin 0) (Fin 0))
           (FVec2 (Fin 1) (Fin 1))
         = FVec2 (round32 ((real (max w h) - real w) / 2 / real (max w h)))
                 (round32 ((real (max w h) - real h) / 2 / real (max w h)))
       \<and> getCoverUV (with_resolution U (real w) (real h)) (FVec2 (Fin 0) (Fin 0))
           (FVec2 (Fin 1) (Fin 1)) \<noteq> FVec2 (Fin 0) (Fin 0)"
proof -
  define m where "m = max w h"
  have m: "w \<le> m" "h \<le> m" "m \<le> 2 ^ 24" using assms by (simp_all add: m_def)
  have rw: "round32 (real w) = Fin (real w)" using assms by (intro round32_nat) simp
  have rh: "round32 (real h) = Fin (real h)" using assms by (intro round32_nat) simp
  have sc: "fmax (Fin (real w)) (Fin (real h)) = Fin (real m)"
    by (simp add: fmax_fin m_def)
  have eq: "getCoverUV (with_resolution U (real w) (real h)) (FVec2 (Fin 0) (Fin 0))
           (FVec2 (Fin 1) (Fin 1))
         = FVec2 (round32 ((real m - real w) / 2 / real m))
                 (round32 ((real m - real h) / 2 / real m))"
  proof -
    have dw: "fdiv (Fin (real w)) (Fin 1) = Fin (real w)" by (simp add: rw)
    have dh: "fdiv (Fin (real h)) (Fin 1) = Fin (real h)" by (simp add: rh)
    have g: "\<not> (flt (Fin 1) (Fin 1) \<or> flt (Fin 1) (Fin 1))" by simp
    show ?thesis
      unfolding getCoverUV_def with_resolution_def Let_def fvec2_defs
      by (simp add: dw dh sc unit_cover_axis [OF assms(1) m(1) m(3)]
          unit_cover_axis [OF assms(3) m(2) m(3)] del: fmul.simps fdiv.simps fadd.simps)
  qed
  have "w < m \<or> h < m" using assms(5) by (auto simp: m_def max_def)
  then have "round32 ((real m - real w) / 2 / real m) \<noteq> Fin 0
      \<or> round32 ((real m - real h) / 2 / real m) \<noteq> Fin 0"
  proof
    assume "w < m"
    from unit_cover_moves [OF assms(1) this m(3)] show ?thesis by auto
  next
    assume "h < m"
    from unit_cover_moves [OF assms(3) this m(3)] show ?thesis by auto
  qed
  with eq show ?thesis unfolding m_def by auto
qed

text \<open>
  Claim C5, as stated, fails: after a failed load in a window of 1600 by 900 the texture
  size is (1, 1), also as uploaded, and \<open>getCoverUV\<close> sends the coordinate (0, 0) to
  (0, 7/32).
\<close>

theorem texture_failure_cover_counterexample:
  "uTextureSize (uniforms (run [TextureError] example_mounted)) = Vec2 1 1
   \<and> uTextureSize32 (upload (uniforms (run [TextureError] example_mounted)))
       = FVec2 (Fin 1) (Fin 1)
   \<and> uResolution32 (upload (uniforms (run [TextureError] example_mounted)))
       = FVec2 (Fin 1600) (Fin 900)
   \<and> getCoverUV (upload (uniforms (run [TextureError] example_mounted)))
        (FVec2 (Fin 0) (Fin 0))
        (uTextureSize32 (upload (uniforms (run [TextureError] example_mounted))))
       = FVec2 (Fin 0) (Fin (7 / 32))"
proof -
  have u: "upload (uniforms (run [TextureError] example_mounted)) = default_uniforms32"
    by (simp add: default_uniforms32_def)
  show ?thesis
    unfolding u
    by (simp add: example_mounted_def default_uniforms32_eq getCoverUV_def fvec2_defs fmax_def fsub_def
        f32_eval)
qed

text \<open>
  Claim C5, amended. As long as no load of the texture succeeds, the texture size
  keeps the value (1, 1) that the effect gave it, also as uploaded. With the texture size
  (1, 1) the guard of \<open>getCoverUV\<close> is not met and the cover fit of a square of one pixel
  is computed; in a viewport of \<open>w\<close> by \<open>h\<close> whole pixels, between 1 and \<open>2 ^ 24\<close>, with
  \<open>w \<noteq> h\<close> this is not the identity: with \<open>m = max w h\<close> it sends (0, 0) to
  \<open>((m - w) / 2 / m, (m - h) / 2 / m)\<close>, rounded, which is not (0, 0).
\<close>

theorem texture_failure_cover:
  assumes "mount s0 = Some s1" and "\<not> list_ex is_TextureLoaded evs"
  shows "uTextureSize (uniforms (run evs s1)) = Vec2 1 1
    \<and> uTextureSize32 (upload (uniforms (run evs s1))) = FVec2 (Fin 1) (Fin 1)
    \<and> (1 \<le> w \<and> w \<le> 2 ^ 24 \<and> 1 \<le> h \<and> h \<le> 2 ^ 24 \<and> w \<noteq> h \<longrightarrow>
         getCoverUV (with_resolution U (real w) (real h)) (FVec2 (Fin 0) (Fin 0))
           (FVec2 (Fin 1) (Fin 1))
         = FVec2 (round32 ((real (max w h) - real w) / 2 / real (max w h)))
                 (round32 ((real (max w h) - real h) / 2 / real (max w h)))
       \<and> getCoverUV (with_resolution U (real w) (real h)) (FVec2 (Fin 0) (Fin 0))
           (FVec2 (Fin 1) (Fin 1)) \<noteq> FVec2 (Fin 0) (Fin 0))"
proof -
  have a: "uTextureSize (uniforms (run evs s1)) = Vec2 1 1"
    using run_no_load [OF assms(2), of s1] mount_textureSize [OF assms(1)] by simp
  have one: "round32 1 = Fin 1" by (simp add: f32_eval)
  have b: "uTextureSize32 (upload (uniforms (run evs s1))) = FVec2 (Fin 1) (Fin 1)"
    by (simp add: upload_def upload_vec2_def a one)
  have c: "getCoverUV (with_resolution U (real w) (real h)) (FVec2 (Fin 0) (Fin 0))
           (FVec2 (Fin 1) (Fin 1))
         = FVec2 (round32 ((real (max w h) - real w) / 2 / real (max w h)))
                 (round32 ((real (max w h) - real h) / 2 / real (max w h)))
       \<and> getCoverUV (with_resolution U (real w) (real h)) (FVec2 (Fin 0) (Fin 0))
           (FVec2 (Fin 1) (Fin 1)) \<noteq> FVec2 (Fin 0) (Fin 0)"
    if "1 \<le> w \<and> w \<le> 2 ^ 24 \<and> 1 \<le> h \<and> h \<le> 2 ^ 24 \<and> w \<noteq> h"
    using that by (intro unit_cover_not_identity) simp_all
  from a b c show ?thesis by blast
qed

theorem texture_failure_cover_witness:
  "mount example_page = Some example_mounted
   \<and> \<not> list_ex is_TextureLoaded [TextureError, Frame]
   \<and> uTextureSize (uniforms (run [TextureError, Frame] example_mounted)) = Vec2 1 1
   \<and> (1::nat) \<le> 1600 \<and> (1600::nat) \<le> 2 ^ 24 \<and> (1::nat) \<le> 900 \<and> (900::nat) \<le> 2 ^ 24
   \<and> (1600::nat) \<noteq> 900
   \<and> getCoverUV (with_resolution default_uniforms32 (real (1600::nat)) (real (900::nat)))
        (FVec2 (Fin 0) (Fin 0)) (FVec2 (Fin 1) (Fin 1))
       = FVec2 (Fin 0) (Fin (7 / 32))"
proof -
  have n: "\<not> list_ex is_TextureLoaded [TextureError, Frame]" by simp
  have sz: "(1::nat) \<le> 1600 \<and> (1600::nat) \<le> 2 ^ 24 \<and> (1::nat) \<le> 900
      \<and> (900::nat) \<le> 2 ^ 24 \<and> (1600::nat) \<noteq> 900"
    by simp
  have r: "round32 ((real (max (1600::nat) 900) - real (1600::nat)) / 2 / real (max (1600::nat) 900))
      = Fin 0"
    "round32 ((real (max (1600::nat) 900) - real (900::nat)) / 2 / real (max (1600::nat) 900))
      = Fin (7 / 32)"
    by (simp_all add: f32_eval)
  from texture_failure_cover [OF mount_example n, where w = 1600 and h = 900 and U = default_uniforms32] sz
  have "uTextureSize (uniforms (run [TextureError, Frame] example_mounted)) = Vec2 1 1"
    and "getCoverUV (with_resolution default_uniforms32 (real (1600::nat)) (real (900::nat)))
        (FVec2 (Fin 0) (Fin 0)) (FVec2 (Fin 1) (Fin 1))
       = FVec2 (round32 ((real (max (1600::nat) 900) - real (1600::nat)) / 2
                  / real (max (1600::nat) 900)))
               (round32 ((real (max (1600::nat) 900) - real (900::nat)) / 2
                  / real (max (1600::nat) 900)))"
    by blast+
  then show ?thesis unfolding r using mount_example n sz by blast
qed

subsection \<open>The handlers\<close>

text \<open>
  Claim C9. When \<open>onResize\<close> runs in a window of size \<open>(w, h)\<close>, the resolution uniform
  becomes \<open>(w, h)\<close>, \<open>camera.aspect\<close> becomes \<open>w / h\<close> and it is this value that
  \<open>updateProjectionMatrix\<close> is called with; the size of the window is not changed. So
  after every run of \<open>onResize\<close> the resolution uniform is the size of the window. (For
  \<open>h = 0\<close> the quotient \<open>w / h\<close> of the code is not a real number; the statement says
  nothing about the value of that quotient.)
\<close>

theorem onResize_resolution:
  "uResolution (uniforms (onResize (s\<lparr>innerWidth := w, innerHeight := h\<rparr>))) = Vec2 w h
   \<and> camera_aspect (onResize (s\<lparr>innerWidth := w, innerHeight := h\<rparr>)) = w / h
   \<and> calls (onResize (s\<lparr>innerWidth := w, innerHeight := h\<rparr>))
       = calls s @ [UpdateProjectionMatrix (w / h), SetSize w h]
   \<and> innerWidth (onResize (s\<lparr>innerWidth := w, innerHeight := h\<rparr>)) = w
   \<and> innerHeight (onResize (s\<lparr>innerWidth := w, innerHeight := h\<rparr>)) = h
   \<and> uResolution (uniforms (onResize s)) = Vec2 (innerWidth (onResize s)) (innerHeight (onResize s))"
  by (simp add: onResize_def call_def Let_def)

text \<open>
  Claim C10. \<open>onMouseMove\<close> sets the uniform \<open>uMouse\<close> to the client coordinates of the
  event. Every other uniform keeps its value, and with the old uniforms put back the
  state is the state before: nothing but the uniforms changes.
\<close>

theorem onMouseMove_frame:
  "uMouse (uniforms (onMouseMove event s)) = Vec2 (clientX event) (clientY event)
   \<and> uTexture (uniforms (onMouseMove event s)) = uTexture (uniforms s)
   \<and> uResolution (uniforms (onMouseMove event s)) = uResolution (uniforms s)
   \<and> uTextureSize (uniforms (onMouseMove event s)) = uTextureSize (uniforms s)
   \<and> uTime (uniforms (onMouseMove event s)) = uTime (uniforms s)
   \<and> uParallaxStrength (uniforms (onMouseMove event s)) = uParallaxStrength (uniforms s)
   \<and> uDistortionMultiplier (uniforms (onMouseMove event s)) = uDistortionMultiplier (uniforms s)
   \<and> uGlassStrength (uniforms (onMouseMove event s)) = uGlassStrength (uniforms s)
   \<and> uStripesFrequency (uniforms (onMouseMove event s)) = uStripesFrequency (uniforms s)
   \<and> uGlassSmoothness (uniforms (onMouseMove event s)) = uGlassSmoothness (uniforms s)
   \<and> uEdgePadding (uniforms (onMouseMove event s)) = uEdgePadding (uniforms s)
   \<and> uFlowSpeed (uniforms (onMouseMove event s)) = uFlowSpeed (uniforms s)
   \<and> (onMouseMove event s)\<lparr>uniforms := uniforms s\<rparr> = s"
  by (simp add: onMouseMove_def)

end
